theory Spec2Isabelle
  imports Main "HOL-Library.Word"
begin

unbundle bit_operations_syntax

section \<open>GRRLIB\_ttf.c: TrueType text over FreeType and GX\<close>

text \<open>
  The module is glue between two external collaborators: the FreeType font engine and the
  GX point-drawing calls of the console. Neither is part of the repository, so the
  embedding takes the font engine (and the libc functions the file calls) as a
  parameter, a record of functions over an abstract environment state, and records every
  call the module makes to a collaborator in a log, in program order. The observable
  behaviour of a function of the module is its return value together with the calls it
  appends to the log.
\<close>

subsection \<open>Machine types\<close>

text \<open>
  The target is the 32-bit PowerPC of the console (ILP32): \<open>int\<close>, \<open>unsigned int\<close>,
  \<open>long\<close>, \<open>FT_Int\<close>, \<open>FT_UInt\<close>, \<open>FT_Pos\<close>, \<open>FT_Error\<close> and \<open>wchar_t\<close> are all 32 bits
  wide. A word carries no sign: addition, subtraction and multiplication wrap, and the
  operations that depend on the sign are written as such (\<open><s\<close> for the comparison of two
  \<open>int\<close>s, \<open>signed_drop_bit\<close> for \<open>>>\<close> on a signed value, \<open>sint\<close> to read an \<open>int\<close>).
\<close>

type_synonym u8 = "8 word"
type_synonym s16 = "16 word"
type_synonym u16 = "16 word"
type_synonym u32 = "32 word"
type_synonym s32 = "32 word"
type_synonym FT_Int = "32 word"
type_synonym FT_UInt = "32 word"
type_synonym FT_Pos = "32 word"
type_synonym FT_Error = "32 word"
type_synonym wchar_t = "32 word"

subsection \<open>Data of the font engine that the module reads\<close>

text \<open>
  \<open>FT_Bitmap\<close>, \<open>FT_Vector\<close> and \<open>FT_GlyphSlotRec\<close> are declared by FreeType's headers;
  only the fields this file reads are kept. \<open>buffer\<close> is a pointer in C, read as
  \<open>buffer[k]\<close> with no bounds check: it is modelled as the memory behind the pointer, a
  function from the index to the byte stored there.
\<close>

record FT_Bitmap =
  rows :: u32
  width :: u32
  buffer :: "nat \<Rightarrow> u8"

record FT_Vector =
  vec_x :: FT_Pos
  vec_y :: FT_Pos

record FT_GlyphSlotRec =
  bitmap :: FT_Bitmap
  bitmap_left :: FT_Int
  bitmap_top :: FT_Int
  advance :: FT_Vector

text \<open>
  \<open>GRRLIB_ttfFont\<close> (declared in grrlib.h): a face handle and the kerning flag. A
  \<open>GRRLIB_ttfFont *\<close> is modelled by the object it points to, \<open>None\<close> being \<open>NULL\<close>.
\<close>

record 'face GRRLIB_ttfFont =
  face :: 'face
  kerning :: bool

subsection \<open>Constants of the external headers\<close>

text \<open>
  The symbolic constants passed to the collaborators, with the values of the FreeType and
  libogc headers. No theorem below depends on the numbers.
\<close>

definition FT_LOAD_RENDER :: s32 where
  "FT_LOAD_RENDER = 4"

definition FT_KERNING_DEFAULT :: u32 where
  "FT_KERNING_DEFAULT = 0"

definition GX_POINTS :: u8 where
  "GX_POINTS = 0xB8"

definition GX_VTXFMT0 :: u8 where
  "GX_VTXFMT0 = 0"

subsection \<open>The log of calls to the collaborators\<close>

text \<open>
  One constructor per external function the file calls, with the arguments of the call.
  The GX calls return nothing, so the log is all there is to them. The \<open>f32\<close> arguments
  of \<open>GX_Position3f32\<close> are recorded by their values, which are integers here.
\<close>

datatype 'face event =
    Ev_FT_New_Memory_Face "u8 list" s32 s32
  | Ev_FT_Done_Face 'face
  | Ev_FT_Set_Pixel_Sizes 'face FT_UInt FT_UInt
  | Ev_FT_Get_Char_Index 'face u32
  | Ev_FT_Get_Kerning 'face FT_UInt FT_UInt u32
  | Ev_FT_Load_Glyph 'face FT_UInt s32
  | Ev_malloc
  | Ev_free "'face GRRLIB_ttfFont"
  | GX_Begin u8 u8 u16
  | GX_Position3f32 int int int
  | GX_Color4u8 u8 u8 u8 u8
  | GX_End

fun is_GX :: "'face event \<Rightarrow> bool" where
  "is_GX (GX_Begin _ _ _) = True"
| "is_GX (GX_Position3f32 _ _ _) = True"
| "is_GX (GX_Color4u8 _ _ _ _) = True"
| "is_GX GX_End = True"
| "is_GX _ = False"

subsection \<open>DrawBitmap\<close>

text \<open>
  Lines 47 to 50: \<open>s16 alpha = bitmap->buffer[...] - (0xFF - cA)\<close>, clamped at 0. Both
  \<open>u8\<close> operands are promoted to \<open>int\<close>, the difference is computed there and converted
  to \<open>s16\<close>.
\<close>

definition DrawBitmap_alpha :: "u8 \<Rightarrow> u8 \<Rightarrow> s16" where
  "DrawBitmap_alpha b cA =
     (let alpha = (ucast ((ucast b :: s32) - (0xFF - (ucast cA :: s32))) :: s16)
      in if alpha <s 0 then 0 else alpha)"

text \<open>
  \<open>GX_Position3f32\<close> takes three \<open>f32\<close>: the \<open>int\<close>s \<open>i\<close> and \<open>j\<close> are converted at the
  call (line 52). An \<open>f32\<close> has a significand of 24 bits, and the conversion rounds to the
  nearest value, to the even significand on a tie. The value of an \<open>f32\<close> that comes from
  an integer is an integer again, so an \<open>f32\<close> is recorded by its value: \<open>f32_of_int n\<close>
  is the value of \<open>(f32)n\<close>. \<open>f32_shift m\<close> is the number of low bits of \<open>m\<close> that do
  not fit in the significand.
\<close>

fun f32_shift :: "nat \<Rightarrow> nat" where
  "f32_shift m = (if m < 2 ^ 24 then 0 else Suc (f32_shift (m div 2)))"

declare f32_shift.simps [simp del]

definition f32_of_int :: "int \<Rightarrow> int" where
  "f32_of_int n =
     (let m = nat \<bar>n\<bar>;
          e = f32_shift m;
          q = m div 2 ^ e;
          r = m mod 2 ^ e;
          q' = (if 2 ^ e < 2 * r \<or> (2 * r = 2 ^ e \<and> odd q) then q + 1 else q)
      in sgn n * int (q' * 2 ^ e))"

text \<open>
  The body of the inner loop (lines 47 to 54) for the cell \<open>(p, q)\<close> at screen position
  \<open>(i, j)\<close>: the four GX calls of one point. \<open>q * bitmap->width + p\<close> is unsigned 32-bit
  arithmetic; \<open>alpha\<close> is converted from \<open>s16\<close> to the \<open>u8\<close> parameter of \<open>GX_Color4u8\<close>.
\<close>

definition DrawBitmap_cell ::
  "FT_Bitmap \<Rightarrow> FT_Int \<Rightarrow> FT_Int \<Rightarrow> FT_Int \<Rightarrow> FT_Int \<Rightarrow> u8 \<Rightarrow> u8 \<Rightarrow> u8 \<Rightarrow> u8 \<Rightarrow> 'face event list" where
  "DrawBitmap_cell bm i j p q cR cG cB cA =
     (let alpha = DrawBitmap_alpha (buffer bm (unat (q * width bm + p))) cA
      in [GX_Begin GX_POINTS GX_VTXFMT0 1,
          GX_Position3f32 (f32_of_int (sint i)) (f32_of_int (sint j)) 0,
          GX_Color4u8 cR cG cB (ucast alpha),
          GX_End])"

lemma sint_succ_sless:
  fixes j :: "32 word"
  assumes "j <s m"
  shows "sint (j + 1) = sint j + 1"
proof -
  have "sint m \<le> 2 ^ 31 - 1"
    using sint_lt [of m] by simp
  with assms have hi: "sint j + 1 \<le> 2 ^ 31 - 1"
    by (simp add: word_sless_alt)
  have lo: "- (2 ^ 31) \<le> sint j + 1"
    using sint_ge [of j] by simp
  have "sint (j + 1) = signed_take_bit 31 (sint j + 1)"
    by (simp add: sint_word_ariths)
  also have "\<dots> = sint j + 1"
    using lo hi by (simp add: signed_take_bit_int_eq_self)
  finally show ?thesis .
qed

text \<open>
  The inner loop (line 46): \<open>for (j = top, q = 0; j < y_max; j++, q++)\<close>, a signed
  comparison. \<open>gx\<close> is the log so far.
\<close>

function DrawBitmap_rows ::
  "FT_Bitmap \<Rightarrow> FT_Int \<Rightarrow> FT_Int \<Rightarrow> FT_Int \<Rightarrow> u8 \<Rightarrow> u8 \<Rightarrow> u8 \<Rightarrow> u8 \<Rightarrow>
   FT_Int \<Rightarrow> FT_Int \<Rightarrow> 'face event list \<Rightarrow> 'face event list" where
  "DrawBitmap_rows bm y_max i p cR cG cB cA j q gx =
     (if j <s y_max
      then DrawBitmap_rows bm y_max i p cR cG cB cA (j + 1) (q + 1)
             (gx @ DrawBitmap_cell bm i j p q cR cG cB cA)
      else gx)"
  by pat_completeness auto
termination
  by (relation "measure (\<lambda>(bm, y_max, i, p, cR, cG, cB, cA, j, q, gx). nat (sint y_max - sint j))")
     (auto simp: sint_succ_sless word_sless_alt)

text \<open>The outer loop (line 45): \<open>for (i = offset, p = 0; i < x_max; i++, p++)\<close>.\<close>

function DrawBitmap_cols ::
  "FT_Bitmap \<Rightarrow> FT_Int \<Rightarrow> FT_Int \<Rightarrow> FT_Int \<Rightarrow> u8 \<Rightarrow> u8 \<Rightarrow> u8 \<Rightarrow> u8 \<Rightarrow>
   FT_Int \<Rightarrow> FT_Int \<Rightarrow> 'face event list \<Rightarrow> 'face event list" where
  "DrawBitmap_cols bm top' x_max y_max cR cG cB cA i p gx =
     (if i <s x_max
      then DrawBitmap_cols bm top' x_max y_max cR cG cB cA (i + 1) (p + 1)
             (DrawBitmap_rows bm y_max i p cR cG cB cA top' 0 gx)
      else gx)"
  by pat_completeness auto
termination
  by (relation "measure (\<lambda>(bm, top', x_max, y_max, cR, cG, cB, cA, i, p, gx). nat (sint x_max - sint i))")
     (auto simp: sint_succ_sless word_sless_alt)

text \<open>
  Lines 41 to 57. \<open>offset + bitmap->width\<close> and \<open>top + bitmap->rows\<close> are computed in
  32 bits and stored in the \<open>FT_Int\<close>s \<open>x_max\<close> and \<open>y_max\<close>.
\<close>

definition DrawBitmap ::
  "FT_Bitmap \<Rightarrow> FT_Int \<Rightarrow> FT_Int \<Rightarrow> u8 \<Rightarrow> u8 \<Rightarrow> u8 \<Rightarrow> u8 \<Rightarrow> 'face event list \<Rightarrow> 'face event list" where
  "DrawBitmap bm offset top' cR cG cB cA gx =
     (let x_max = offset + width bm;
          y_max = top' + rows bm
      in DrawBitmap_cols bm top' x_max y_max cR cG cB cA offset 0 gx)"

declare DrawBitmap_rows.simps [simp del] DrawBitmap_cols.simps [simp del]

subsection \<open>The collaborators\<close>

text \<open>
  The functions of FreeType and libc that the file calls, over the state \<open>'env\<close> of the
  world outside the module (the FreeType library instance \<open>ftLibrary\<close>, the faces, the
  allocator, the locale). Nothing is assumed about them. A function that changes that state
  returns the new one; \<open>FT_Get_Char_Index\<close>, \<open>FT_Get_Kerning\<close> (whose result is the vector
  it stores through its last argument; its error code is ignored by the file) and the macro
  \<open>FT_HAS_KERNING\<close> only read it. \<open>glyph\<close> reads the glyph slot \<open>Face->glyph\<close>.
  \<open>malloc\<close> answers whether the allocation of a \<open>GRRLIB_ttfFont\<close> succeeds (\<open>False\<close>: it
  returns \<open>NULL\<close>).

  A C string is given by the cells before its final terminator; \<open>None\<close> is \<open>NULL\<close>.
  \<open>mbstowcs ext e s\<close> is \<open>None\<close> when the C function reports \<open>(size_t)-1\<close> and otherwise
  the wide characters it produces for \<open>s\<close>: the first call of the file (with a \<open>NULL\<close>
  destination) returns their number, the second, given room for all of them and the
  terminator, stores them and returns their number again.
\<close>

record ('env, 'face) externals =
  FT_New_Memory_Face :: "'env \<Rightarrow> u8 list \<Rightarrow> s32 \<Rightarrow> s32 \<Rightarrow> FT_Error \<times> 'face \<times> 'env"
  FT_HAS_KERNING :: "'env \<Rightarrow> 'face \<Rightarrow> bool"
  FT_Done_Face :: "'env \<Rightarrow> 'face \<Rightarrow> 'env"
  FT_Set_Pixel_Sizes :: "'env \<Rightarrow> 'face \<Rightarrow> FT_UInt \<Rightarrow> FT_UInt \<Rightarrow> FT_Error \<times> 'env"
  FT_Get_Char_Index :: "'env \<Rightarrow> 'face \<Rightarrow> u32 \<Rightarrow> FT_UInt"
  FT_Get_Kerning :: "'env \<Rightarrow> 'face \<Rightarrow> FT_UInt \<Rightarrow> FT_UInt \<Rightarrow> u32 \<Rightarrow> FT_Vector"
  FT_Load_Glyph :: "'env \<Rightarrow> 'face \<Rightarrow> FT_UInt \<Rightarrow> s32 \<Rightarrow> FT_Error \<times> 'env"
  glyph :: "'env \<Rightarrow> 'face \<Rightarrow> FT_GlyphSlotRec"
  malloc :: "'env \<Rightarrow> bool \<times> 'env"
  free :: "'env \<Rightarrow> 'face GRRLIB_ttfFont \<Rightarrow> 'env"
  mbstowcs :: "'env \<Rightarrow> char list \<Rightarrow> wchar_t list option"
  R :: "u32 \<Rightarrow> u8"
  G :: "u32 \<Rightarrow> u8"
  B :: "u32 \<Rightarrow> u8"
  A :: "u32 \<Rightarrow> u8"

text \<open>The state the module runs in: the outside world and the log of calls made so far.\<close>

record ('env, 'face) world =
  env :: 'env
  log :: "'face event list"

text \<open>Writing through a \<open>NULL\<close> pointer ends the run.\<close>

datatype fault = NullDereference

subsection \<open>GRRLIB\_LoadTTF and GRRLIB\_FreeTTF\<close>

text \<open>
  Lines 84 to 98. The result of \<open>malloc\<close> is not tested before \<open>myFont->kerning\<close> is
  written.
\<close>

definition GRRLIB_LoadTTF ::
  "('env, 'face) externals \<Rightarrow> ('env, 'face) world \<Rightarrow> u8 list \<Rightarrow> s32 \<Rightarrow>
   fault + ('face GRRLIB_ttfFont option \<times> ('env, 'face) world)" where
  "GRRLIB_LoadTTF ext w file_base file_size =
     (case FT_New_Memory_Face ext (env w) file_base file_size 0 of
        (err, Face, e1) \<Rightarrow>
          let w1 = \<lparr>env = e1, log = log w @ [Ev_FT_New_Memory_Face file_base file_size 0]\<rparr>
          in if err \<noteq> 0 then Inr (None, w1)
             else (case malloc ext (env w1) of
                     (ok, e2) \<Rightarrow>
                       let w2 = \<lparr>env = e2, log = log w1 @ [Ev_malloc]\<rparr>
                       in if \<not> ok then Inl NullDereference
                          else Inr (Some \<lparr>face = Face, kerning = FT_HAS_KERNING ext (env w2) Face\<rparr>,
                                    w2)))"

text \<open>Lines 106 to 111.\<close>

definition GRRLIB_FreeTTF ::
  "('env, 'face) externals \<Rightarrow> ('env, 'face) world \<Rightarrow> 'face GRRLIB_ttfFont option \<Rightarrow>
   ('env, 'face) world" where
  "GRRLIB_FreeTTF ext w myFont =
     (case myFont of
        None \<Rightarrow> w
      | Some f \<Rightarrow>
          let w1 = \<lparr>env = FT_Done_Face ext (env w) (face f),
                    log = log w @ [Ev_FT_Done_Face (face f)]\<rparr>
          in \<lparr>env = free ext (env w1) f, log = log w1 @ [Ev_free f]\<rparr>)"

subsection \<open>\_PrintfTTFW\<close>

text \<open>
  Lines 133 to 135: the pixel size is set to \<open>fontSize\<close>, and to 12 when that fails (the
  result of the second call is not looked at).
\<close>

definition set_pixel_sizes ::
  "('env, 'face) externals \<Rightarrow> ('env, 'face) world \<Rightarrow> 'face \<Rightarrow> u32 \<Rightarrow> ('env, 'face) world" where
  "set_pixel_sizes ext w Face fontSize =
     (case FT_Set_Pixel_Sizes ext (env w) Face 0 fontSize of
        (err, e1) \<Rightarrow>
          let w1 = \<lparr>env = e1, log = log w @ [Ev_FT_Set_Pixel_Sizes Face 0 fontSize]\<rparr>
          in if err \<noteq> 0
             then \<lparr>env = snd (FT_Set_Pixel_Sizes ext (env w1) Face 0 12),
                   log = log w1 @ [Ev_FT_Set_Pixel_Sizes Face 0 12]\<rparr>
             else w1)"

text \<open>
  The loop of lines 139 to 158 over the cells of \<open>utf32\<close>, with the loop variables
  \<open>penX\<close> and \<open>previousGlyph\<close> and the world as its state. It stops at the first cell that
  is 0, or at the terminator that follows the last cell of the list. \<open>delta.x >> 6\<close> and
  \<open>slot->advance.x >> 6\<close> shift a signed value.
\<close>

fun PrintfTTFW_loop ::
  "('env, 'face) externals \<Rightarrow> 'face GRRLIB_ttfFont \<Rightarrow> s32 \<Rightarrow> s32 \<Rightarrow> s32 \<Rightarrow>
   u8 \<Rightarrow> u8 \<Rightarrow> u8 \<Rightarrow> u8 \<Rightarrow> bool \<Rightarrow> wchar_t list \<Rightarrow>
   s32 \<times> FT_UInt \<times> ('env, 'face) world \<Rightarrow> s32 \<times> ('env, 'face) world" where
  "PrintfTTFW_loop ext myFont x y penY cR cG cB cA noprint [] (penX, previousGlyph, w) = (penX, w)"
| "PrintfTTFW_loop ext myFont x y penY cR cG cB cA noprint (c # utf32) (penX, previousGlyph, w) =
     (if c = 0 then (penX, w)
      else
        let glyphIndex = FT_Get_Char_Index ext (env w) (face myFont) c;
            w1 = w\<lparr>log := log w @ [Ev_FT_Get_Char_Index (face myFont) c]\<rparr>;
            kern = kerning myFont \<and> previousGlyph \<noteq> 0 \<and> glyphIndex \<noteq> 0;
            delta = FT_Get_Kerning ext (env w1) (face myFont) previousGlyph glyphIndex
                      FT_KERNING_DEFAULT;
            penX1 = (if kern then penX + signed_drop_bit 6 (vec_x delta) else penX);
            w2 = (if kern
                  then w1\<lparr>log := log w1 @ [Ev_FT_Get_Kerning (face myFont) previousGlyph glyphIndex
                                              FT_KERNING_DEFAULT]\<rparr>
                  else w1);
            loaded = FT_Load_Glyph ext (env w2) (face myFont) glyphIndex FT_LOAD_RENDER;
            w3 = \<lparr>env = snd loaded,
                  log = log w2 @ [Ev_FT_Load_Glyph (face myFont) glyphIndex FT_LOAD_RENDER]\<rparr>
        in if fst loaded \<noteq> 0
           then PrintfTTFW_loop ext myFont x y penY cR cG cB cA noprint utf32
                  (penX1, previousGlyph, w3)
           else
             let slot = glyph ext (env w3) (face myFont);
                 w4 = (if \<not> noprint
                       then w3\<lparr>log := DrawBitmap (bitmap slot)
                                         (penX1 + bitmap_left slot + x)
                                         (penY - bitmap_top slot + y)
                                         cR cG cB cA (log w3)\<rparr>
                       else w3)
             in PrintfTTFW_loop ext myFont x y penY cR cG cB cA noprint utf32
                  (penX1 + signed_drop_bit 6 (vec_x (advance slot)), glyphIndex, w4))"

text \<open>
  Lines 116 to 161, the common code of \<open>GRRLIB_PrintfTTFW\<close> and \<open>GRRLIB_WidthTTFW\<close>
  (\<open>_PrintfTTFW\<close> in the source). The \<open>int\<close> \<open>penX\<close> is returned as a \<open>u32\<close>.
\<close>

definition static_PrintfTTFW ::
  "('env, 'face) externals \<Rightarrow> ('env, 'face) world \<Rightarrow> s32 \<Rightarrow> s32 \<Rightarrow>
   'face GRRLIB_ttfFont option \<Rightarrow> wchar_t list option \<Rightarrow> u32 \<Rightarrow> u32 \<Rightarrow> bool \<Rightarrow>
   u32 \<times> ('env, 'face) world" where
  "static_PrintfTTFW ext w x y myFont utf32 fontSize color noprint =
     (case myFont of
        None \<Rightarrow> (0, w)
      | Some f \<Rightarrow>
          (case utf32 of
             None \<Rightarrow> (0, w)
           | Some s \<Rightarrow>
               let penX = 0;
                   penY = fontSize;
                   previousGlyph = 0;
                   cR = R ext color; cG = G ext color; cB = B ext color; cA = A ext color;
                   w1 = set_pixel_sizes ext w (face f) fontSize
               in PrintfTTFW_loop ext f x y penY cR cG cB cA noprint s (penX, previousGlyph, w1)))"

text \<open>Lines 174 to 177 and 186 to 189.\<close>

definition GRRLIB_PrintfTTFW ::
  "('env, 'face) externals \<Rightarrow> ('env, 'face) world \<Rightarrow> s32 \<Rightarrow> s32 \<Rightarrow>
   'face GRRLIB_ttfFont option \<Rightarrow> wchar_t list option \<Rightarrow> u32 \<Rightarrow> u32 \<Rightarrow>
   u32 \<times> ('env, 'face) world" where
  "GRRLIB_PrintfTTFW ext w x y myFont utf32 fontSize color =
     static_PrintfTTFW ext w x y myFont utf32 fontSize color False"

definition GRRLIB_WidthTTFW ::
  "('env, 'face) externals \<Rightarrow> ('env, 'face) world \<Rightarrow>
   'face GRRLIB_ttfFont option \<Rightarrow> wchar_t list option \<Rightarrow> u32 \<Rightarrow>
   u32 \<times> ('env, 'face) world" where
  "GRRLIB_WidthTTFW ext w myFont utf32 fontSize =
     static_PrintfTTFW ext w 0 0 myFont utf32 fontSize 0x00000000 True"

subsection \<open>\_PrintfTTF\<close>

text \<open>
  Lines 194 to 218, the common code of \<open>GRRLIB_PrintfTTF\<close> and \<open>GRRLIB_WidthTTF\<close>
  (\<open>_PrintfTTF\<close> in the source). The wide string is handed on only when the second
  \<open>mbstowcs\<close> reports more than 0 characters.
\<close>

definition static_PrintfTTF ::
  "('env, 'face) externals \<Rightarrow> ('env, 'face) world \<Rightarrow> s32 \<Rightarrow> s32 \<Rightarrow>
   'face GRRLIB_ttfFont option \<Rightarrow> char list option \<Rightarrow> u32 \<Rightarrow> u32 \<Rightarrow> bool \<Rightarrow>
   u32 \<times> ('env, 'face) world" where
  "static_PrintfTTF ext w x y myFont string fontSize color noprint =
     (if myFont = None \<or> string = None then (0, w)
      else
        (case mbstowcs ext (env w) (the string) of
           None \<Rightarrow> (0, w)
         | Some utf32 \<Rightarrow>
             if length utf32 > 0
             then static_PrintfTTFW ext w x y myFont (Some utf32) fontSize color noprint
             else (0, w)))"

text \<open>Lines 230 to 233 and 242 to 245.\<close>

definition GRRLIB_PrintfTTF ::
  "('env, 'face) externals \<Rightarrow> ('env, 'face) world \<Rightarrow> s32 \<Rightarrow> s32 \<Rightarrow>
   'face GRRLIB_ttfFont option \<Rightarrow> char list option \<Rightarrow> u32 \<Rightarrow> u32 \<Rightarrow>
   u32 \<times> ('env, 'face) world" where
  "GRRLIB_PrintfTTF ext w x y myFont string fontSize color =
     static_PrintfTTF ext w x y myFont string fontSize color False"

definition GRRLIB_WidthTTF ::
  "('env, 'face) externals \<Rightarrow> ('env, 'face) world \<Rightarrow>
   'face GRRLIB_ttfFont option \<Rightarrow> char list option \<Rightarrow> u32 \<Rightarrow>
   u32 \<times> ('env, 'face) world" where
  "GRRLIB_WidthTTF ext w myFont string fontSize =
     static_PrintfTTF ext w 0 0 myFont string fontSize 0x00000000 True"

section \<open>Notions used in the statements\<close>

text \<open>A point is one \<open>GX_Begin(GX_POINTS, GX_VTXFMT0, 1)\<close> ... \<open>GX_End\<close> group of the log.\<close>

definition points_emitted :: "'face event list \<Rightarrow> nat" where
  "points_emitted evs = length (filter (\<lambda>e. e = GX_Begin GX_POINTS GX_VTXFMT0 1) evs)"

text \<open>The character codes handed to \<open>FT_Get_Char_Index\<close>, and the glyph loads, in log order.\<close>

fun chars_looked_up :: "'face event list \<Rightarrow> u32 list" where
  "chars_looked_up [] = []"
| "chars_looked_up (Ev_FT_Get_Char_Index _ c # evs) = c # chars_looked_up evs"
| "chars_looked_up (_ # evs) = chars_looked_up evs"

fun glyphs_loaded :: "'face event list \<Rightarrow> (FT_UInt \<times> s32) list" where
  "glyphs_loaded [] = []"
| "glyphs_loaded (Ev_FT_Load_Glyph _ g flags # evs) = (g, flags) # glyphs_loaded evs"
| "glyphs_loaded (_ # evs) = glyphs_loaded evs"

text \<open>The pairs of glyph indices handed to \<open>FT_Get_Kerning\<close>, in log order.\<close>

fun kerning_queries :: "'face event list \<Rightarrow> (FT_UInt \<times> FT_UInt) list" where
  "kerning_queries [] = []"
| "kerning_queries (Ev_FT_Get_Kerning _ l r _ # evs) = (l, r) # kerning_queries evs"
| "kerning_queries (_ # evs) = kerning_queries evs"

text \<open>
  What the font engine answers along a string, one \<open>step\<close> per character up to the
  terminator: the character, the glyph loaded last before it (0 when none), its glyph
  index, the kerning vector when the file asks for one, the error code of
  \<open>FT_Load_Glyph\<close> and the glyph slot after the load. This is the engine's side only: no
  pen, no drawing.
\<close>

record step =
  st_char :: wchar_t
  st_prev :: FT_UInt
  st_glyph :: FT_UInt
  st_kern :: "FT_Vector option"
  st_err :: FT_Error
  st_slot :: FT_GlyphSlotRec

fun glyph_steps ::
  "('env, 'face) externals \<Rightarrow> 'face GRRLIB_ttfFont \<Rightarrow> 'env \<Rightarrow> FT_UInt \<Rightarrow> wchar_t list \<Rightarrow> step list" where
  "glyph_steps ext f e prev [] = []"
| "glyph_steps ext f e prev (c # cs) =
     (if c = 0 then []
      else
        let g = FT_Get_Char_Index ext e (face f) c;
            loaded = FT_Load_Glyph ext e (face f) g FT_LOAD_RENDER
        in \<lparr>st_char = c, st_prev = prev, st_glyph = g,
            st_kern = (if kerning f \<and> prev \<noteq> 0 \<and> g \<noteq> 0
                       then Some (FT_Get_Kerning ext e (face f) prev g FT_KERNING_DEFAULT)
                       else None),
            st_err = fst loaded,
            st_slot = glyph ext (snd loaded) (face f)\<rparr>
           # glyph_steps ext f (snd loaded) (if fst loaded \<noteq> 0 then prev else g) cs)"

text \<open>The glyph of a step loaded when \<open>FT_Load_Glyph\<close> returned 0.\<close>

definition st_loaded :: "step \<Rightarrow> bool" where
  "st_loaded s = (st_err s = 0)"

text \<open>The pixels a step contributes to the pen: \<open>delta.x >> 6\<close> and \<open>advance.x >> 6\<close>.\<close>

definition kern_px :: "step \<Rightarrow> s32" where
  "kern_px s = (case st_kern s of None \<Rightarrow> 0 | Some delta \<Rightarrow> signed_drop_bit 6 (vec_x delta))"

definition advance_px :: "step \<Rightarrow> s32" where
  "advance_px s = signed_drop_bit 6 (vec_x (advance (st_slot s)))"

text \<open>
  The sum of the advances of the glyphs that loaded and of the kerning deltas that were
  asked for, in 32-bit arithmetic.
\<close>

definition text_width :: "step list \<Rightarrow> s32" where
  "text_width steps = sum_list (map advance_px (filter st_loaded steps)) + sum_list (map kern_px steps)"

text \<open>The pen position at which each step's glyph is placed, from the sums before it.\<close>

fun pen_positions :: "s32 \<Rightarrow> step list \<Rightarrow> s32 list" where
  "pen_positions pen [] = []"
| "pen_positions pen (s # ss) =
     (pen + kern_px s)
     # pen_positions (pen + kern_px s + (if st_loaded s then advance_px s else 0)) ss"

text \<open>
  The calls expected for one character: the index lookup, the kerning query when there is
  one, the rasterisation, then the points of the glyph at the pen.
\<close>

definition step_calls ::
  "'face GRRLIB_ttfFont \<Rightarrow> s32 \<Rightarrow> s32 \<Rightarrow> s32 \<Rightarrow> u8 \<Rightarrow> u8 \<Rightarrow> u8 \<Rightarrow> u8 \<Rightarrow> bool \<Rightarrow>
   step \<times> s32 \<Rightarrow> 'face event list" where
  "step_calls f x y penY cR cG cB cA noprint sp =
     (case sp of (s, pen) \<Rightarrow>
        [Ev_FT_Get_Char_Index (face f) (st_char s)]
        @ (case st_kern s of
             None \<Rightarrow> []
           | Some delta \<Rightarrow> [Ev_FT_Get_Kerning (face f) (st_prev s) (st_glyph s) FT_KERNING_DEFAULT])
        @ [Ev_FT_Load_Glyph (face f) (st_glyph s) FT_LOAD_RENDER]
        @ (if st_loaded s \<and> \<not> noprint
           then DrawBitmap (bitmap (st_slot s))
                  (pen + bitmap_left (st_slot s) + x) (penY - bitmap_top (st_slot s) + y)
                  cR cG cB cA []
           else []))"

text \<open>
  The glyph index of the last step of a list whose glyph loaded, \<open>d\<close> when there is none:
  with the steps before a character, the glyph that loaded last before it.
\<close>

definition last_loaded :: "FT_UInt \<Rightarrow> step list \<Rightarrow> FT_UInt" where
  "last_loaded d steps = last (d # map st_glyph (filter st_loaded steps))"

text \<open>
  The words of claim C3, ``the kerning deltas applied between consecutive glyphs with
  nonzero indices, when the font has kerning'', over a list of glyphs, with integers that
  do not wrap; and the width they give with the rest of the claim, read in two ways:
  consecutive among the characters of the string, or consecutive among the glyphs that
  loaded.
\<close>

definition claimed_kerning ::
  "('env, 'face) externals \<Rightarrow> 'env \<Rightarrow> 'face GRRLIB_ttfFont \<Rightarrow> step list \<Rightarrow> int" where
  "claimed_kerning ext e f gs =
     (if kerning f
      then sum_list (map (\<lambda>(a, b).
             if st_glyph a \<noteq> 0 \<and> st_glyph b \<noteq> 0
             then sint (signed_drop_bit 6 (vec_x
                    (FT_Get_Kerning ext e (face f) (st_glyph a) (st_glyph b) FT_KERNING_DEFAULT)))
             else 0) (zip gs (tl gs)))
      else 0)"

definition claimed_width_characters ::
  "('env, 'face) externals \<Rightarrow> 'env \<Rightarrow> 'face GRRLIB_ttfFont \<Rightarrow> step list \<Rightarrow> int" where
  "claimed_width_characters ext e f steps =
     sum_list (map (\<lambda>st. sint (advance_px st)) (filter st_loaded steps))
     + claimed_kerning ext e f steps"

definition claimed_width_loaded ::
  "('env, 'face) externals \<Rightarrow> 'env \<Rightarrow> 'face GRRLIB_ttfFont \<Rightarrow> step list \<Rightarrow> int" where
  "claimed_width_loaded ext e f steps =
     sum_list (map (\<lambda>st. sint (advance_px st)) (filter st_loaded steps))
     + claimed_kerning ext e f (filter st_loaded steps)"

section \<open>A small font engine for the concrete instances\<close>

text \<open>
  An engine whose glyph index is the character code, whose glyph 67 fails to load, whose
  kerning is always one pixel to the left and whose glyphs are one cell wide and high and
  advance by ten pixels; the environment remembers the glyph loaded last. Its \<open>mbstowcs\<close>
  rejects the string \<open>?\<close>.
\<close>

definition toy_ext :: "(u32, nat) externals" where
  "toy_ext =
     \<lparr>FT_New_Memory_Face = (\<lambda>e buf size idx. (if buf = [] then 1 else 0, 7, e)),
      FT_HAS_KERNING = (\<lambda>e F. True),
      FT_Done_Face = (\<lambda>e F. e),
      FT_Set_Pixel_Sizes = (\<lambda>e F w h. (if h = 0 then 1 else 0, e)),
      FT_Get_Char_Index = (\<lambda>e F c. c),
      FT_Get_Kerning = (\<lambda>e F l r mode. \<lparr>vec_x = - 64, vec_y = 0\<rparr>),
      FT_Load_Glyph = (\<lambda>e F g flags. if g = 67 then (1, e) else (0, g)),
      glyph = (\<lambda>e F. \<lparr>bitmap = \<lparr>rows = 1, width = 1, buffer = (\<lambda>k. ucast e)\<rparr>,
                         bitmap_left = 1, bitmap_top = 2,
                         advance = \<lparr>vec_x = 640, vec_y = 0\<rparr>\<rparr>),
      malloc = (\<lambda>e. (True, e)),
      free = (\<lambda>e f. e),
      mbstowcs = (\<lambda>e s. if s = ''?'' then None else Some (map (\<lambda>c. of_nat (of_char c)) s)),
      R = (\<lambda>c. ucast (drop_bit 24 c)),
      G = (\<lambda>c. ucast (drop_bit 16 c)),
      B = (\<lambda>c. ucast (drop_bit 8 c)),
      A = (\<lambda>c. ucast c)\<rparr>"

text \<open>The same engine when the allocator has no memory left.\<close>

definition toy_ext_oom :: "(u32, nat) externals" where
  "toy_ext_oom = toy_ext\<lparr>malloc := (\<lambda>e. (False, e))\<rparr>"

definition toy_font :: "nat GRRLIB_ttfFont" where
  "toy_font = \<lparr>face = 7, kerning = True\<rparr>"

definition toy_world :: "(u32, nat) world" where
  "toy_world = \<lparr>env = 0, log = []\<rparr>"

text \<open>
  The same engine with a kerning that depends on the left glyph (one pixel to the left
  after glyph 65, ten otherwise), and with a kerning of a hundred pixels to the left.
\<close>

definition toy_ext_kern :: "(u32, nat) externals" where
  "toy_ext_kern =
     toy_ext\<lparr>FT_Get_Kerning :=
               (\<lambda>e F l r mode. \<lparr>vec_x = (if l = 65 then - 64 else - 640), vec_y = 0\<rparr>)\<rparr>"

definition toy_ext_wide :: "(u32, nat) externals" where
  "toy_ext_wide = toy_ext\<lparr>FT_Get_Kerning := (\<lambda>e F l r mode. \<lparr>vec_x = - 6400, vec_y = 0\<rparr>)\<rparr>"

text \<open>
  Three bitmaps: two by two cells with coverages 20, 80, 140, 200; a single cell with full
  coverage; and 65536 by 65537 cells with coverage 0 everywhere but at index \<open>2 ^ 32\<close>.
\<close>

definition toy_bitmap :: FT_Bitmap where
  "toy_bitmap = \<lparr>rows = 2, width = 2, buffer = (\<lambda>k. word_of_nat (60 * k + 20))\<rparr>"

definition huge_bitmap :: FT_Bitmap where
  "huge_bitmap = \<lparr>rows = 65537, width = 65536, buffer = (\<lambda>k. if k = 2 ^ 32 then 255 else 0)\<rparr>"

definition pixel_bitmap :: FT_Bitmap where
  "pixel_bitmap = \<lparr>rows = 1, width = 1, buffer = (\<lambda>k. 255)\<rparr>"

section \<open>Lemmas\<close>

subsection \<open>The conversion to f32\<close>

lemma f32_shift_small: "m < 2 ^ 24 \<Longrightarrow> f32_shift m = 0"
  by (simp add: f32_shift.simps)

lemma f32_of_int_exact:
  assumes "\<bar>n\<bar> \<le> 2 ^ 24"
  shows "f32_of_int n = n"
proof (cases "\<bar>n\<bar> < 2 ^ 24")
  case True
  then have "nat \<bar>n\<bar> < 2 ^ 24"
    by simp
  then have "f32_shift (nat \<bar>n\<bar>) = 0"
    by (rule f32_shift_small)
  then show ?thesis
    by (simp add: f32_of_int_def Let_def mult_sgn_abs)
next
  case False
  with assms have m: "\<bar>n\<bar> = 2 ^ 24"
    by simp
  then have n: "nat \<bar>n\<bar> = 16777216"
    by simp
  have "f32_shift 16777216 = 1"
    by (simp add: f32_shift.simps [of 16777216] f32_shift.simps [of 8388608])
  with n have "f32_of_int n = sgn n * 16777216"
    by (simp add: f32_of_int_def Let_def)
  also have "\<dots> = sgn n * \<bar>n\<bar>"
    using m by simp
  finally show ?thesis
    by (simp add: mult_sgn_abs)
qed

lemma f32_of_int_16777217: "f32_of_int 16777217 = 16777216"
  by (simp add: f32_of_int_def Let_def f32_shift.simps [of 16777217] f32_shift.simps [of 8388608])

subsection \<open>The alpha of a point\<close>

lemma ucast_down_of_int_32_16: "(ucast (word_of_int d :: s32) :: s16) = word_of_int d"
  by (rule bit_word_eqI) (auto simp add: bit_simps)

lemma ucast_16_8: "(ucast (word_of_int d :: s16) :: u8) = word_of_int d"
  by (rule bit_word_eqI) (auto simp add: bit_simps)

lemma ucast_8_16_8: "(ucast (ucast (b :: u8) :: s16) :: u8) = b"
  by (rule bit_word_eqI) (auto simp add: bit_simps)

lemma alpha_raw:
  "(ucast ((ucast b :: s32) - (0xFF - (ucast cA :: s32))) :: s16) = word_of_int (uint b - (255 - uint cA))"
proof -
  have "(ucast b :: s32) - (0xFF - (ucast cA :: s32)) = word_of_int (uint b - (255 - uint cA))"
    by simp
  then show ?thesis
    by (simp only: ucast_down_of_int_32_16)
qed

lemma sint_small16: "- 255 \<le> d \<Longrightarrow> d \<le> 255 \<Longrightarrow> sint (word_of_int d :: s16) = d"
  by (simp add: sint_sbintrunc' signed_take_bit_int_eq_self)

lemma uint_small8: "0 \<le> d \<Longrightarrow> d \<le> 255 \<Longrightarrow> uint (word_of_int d :: u8) = d"
  by (simp add: uint_word_of_int)

lemma alpha_eq: "DrawBitmap_alpha b cA = word_of_int (max 0 (uint b - (255 - uint cA)))"
proof -
  have b: "0 \<le> uint b" "uint b < 256" using uint_bounded [of b] by simp_all
  have a: "0 \<le> uint cA" "uint cA < 256" using uint_bounded [of cA] by simp_all
  let ?d = "uint b - (255 - uint cA)"
  have r: "- 255 \<le> ?d" "?d \<le> 255" using a b by simp_all
  have s: "sint (word_of_int ?d :: s16) = ?d" using r by (rule sint_small16)
  show ?thesis
    unfolding DrawBitmap_alpha_def alpha_raw Let_def word_sless_alt s
    by (simp add: max_def)
qed

lemma alpha_range: "0 \<le> max 0 (uint b - (255 - uint cA))" "max 0 (uint (b::u8) - (255 - uint (cA::u8))) \<le> 255"
  using uint_bounded [of b] uint_bounded [of cA] by simp_all

lemma DrawBitmap_cell_eq:
  "DrawBitmap_cell bm i j p q cR cG cB cA =
     [GX_Begin GX_POINTS GX_VTXFMT0 1,
      GX_Position3f32 (f32_of_int (sint i)) (f32_of_int (sint j)) 0,
      GX_Color4u8 cR cG cB
        (word_of_int (max 0 (uint (buffer bm (unat (q * width bm + p))) - (255 - uint cA)))),
      GX_End]"
  by (simp add: DrawBitmap_cell_def Let_def alpha_eq ucast_16_8)

subsection \<open>The two loops of DrawBitmap\<close>

lemma upt_shift: "0 < n \<Longrightarrow> [0..<n] = 0 # map Suc [0..<n - 1]"
  by (cases n) (simp_all add: upt_conv_Cons map_Suc_upt del: upt_Suc)

lemma concat_map_upt_shift:
  "0 < n \<Longrightarrow> concat (map f [0..<n]) = f 0 @ concat (map (\<lambda>k. f (Suc k)) [0..<n - 1])"
  by (subst upt_shift) (simp_all add: comp_def)

lemma DrawBitmap_rows_unfold:
  "DrawBitmap_rows bm y_max i p cR cG cB cA j q gx =
     gx @ concat (map (\<lambda>k. DrawBitmap_cell bm i (j + of_nat k) p (q + of_nat k) cR cG cB cA)
                      [0..<nat (sint y_max - sint j)])"
proof (induction bm y_max i p cR cG cB cA j q gx rule: DrawBitmap_rows.induct)
  case (1 bm y_max i p cR cG cB cA j q gx)
  show ?case
  proof (cases "j <s y_max")
    case True
    then have pos: "0 < nat (sint y_max - sint j)"
      by (simp add: word_sless_alt)
    have nxt: "nat (sint y_max - sint (j + 1)) = nat (sint y_max - sint j) - 1"
      using True by (simp add: sint_succ_sless)
    have sh: "\<And>k. j + 1 + of_nat k = j + of_nat (Suc k)" "\<And>k. q + 1 + of_nat k = q + of_nat (Suc k)"
      by simp_all
    show ?thesis
      apply (subst DrawBitmap_rows.simps)
      apply (simp only: True if_True "1.IH" [OF True] nxt sh)
      apply (subst concat_map_upt_shift [OF pos])
      apply simp
      done
  next
    case False
    then have "nat (sint y_max - sint j) = 0"
      by (simp add: word_sless_alt)
    with False show ?thesis
      by (subst DrawBitmap_rows.simps) simp
  qed
qed

lemma DrawBitmap_cols_unfold:
  "DrawBitmap_cols bm top' x_max y_max cR cG cB cA i p gx =
     gx @ concat (map (\<lambda>k. DrawBitmap_rows bm y_max (i + of_nat k) (p + of_nat k) cR cG cB cA top' 0 [])
                      [0..<nat (sint x_max - sint i)])"
proof (induction bm top' x_max y_max cR cG cB cA i p gx rule: DrawBitmap_cols.induct)
  case (1 bm top' x_max y_max cR cG cB cA i p gx)
  show ?case
  proof (cases "i <s x_max")
    case True
    then have pos: "0 < nat (sint x_max - sint i)"
      by (simp add: word_sless_alt)
    have nxt: "nat (sint x_max - sint (i + 1)) = nat (sint x_max - sint i) - 1"
      using True by (simp add: sint_succ_sless)
    have sh: "\<And>k. i + 1 + of_nat k = i + of_nat (Suc k)" "\<And>k. p + 1 + of_nat k = p + of_nat (Suc k)"
      by simp_all
    have app: "DrawBitmap_rows bm y_max i p cR cG cB cA top' 0 gx
                 = gx @ DrawBitmap_rows bm y_max i p cR cG cB cA top' 0 []"
      by (simp add: DrawBitmap_rows_unfold [where gx = gx] DrawBitmap_rows_unfold [where gx = "[]"])
    show ?thesis
      apply (subst DrawBitmap_cols.simps)
      apply (simp only: True if_True "1.IH" [OF True] nxt sh)
      apply (subst concat_map_upt_shift [OF pos])
      apply (subst app)
      apply simp
      done
  next
    case False
    then have "nat (sint x_max - sint i) = 0"
      by (simp add: word_sless_alt)
    with False show ?thesis
      by (subst DrawBitmap_cols.simps) simp
  qed
qed

lemma DrawBitmap_unfold:
  "DrawBitmap bm offset top' cR cG cB cA gx =
     gx @ concat (map (\<lambda>k. concat (map (\<lambda>l.
             DrawBitmap_cell bm (offset + of_nat k) (top' + of_nat l) (of_nat k) (of_nat l) cR cG cB cA)
           [0..<nat (sint (top' + rows bm) - sint top')]))
         [0..<nat (sint (offset + width bm) - sint offset)])"
  by (simp add: DrawBitmap_def Let_def DrawBitmap_cols_unfold [where gx = gx]
        DrawBitmap_rows_unfold [where gx = "[]"])

lemma sint_add_unsigned:
  fixes a w :: "32 word"
  assumes "sint a + uint w < 2 ^ 31"
  shows "sint (a + w) = sint a + uint w"
proof -
  have sa: "- (2 ^ 31) \<le> sint a"
    using sint_ge [of a] by simp
  have uw: "0 \<le> uint w"
    by simp
  from sa uw have lo: "- (2 ^ 31) \<le> sint a + uint w"
    by linarith
  have "a + w = word_of_int (sint a + uint w)"
    by simp
  then have "sint (a + w) = signed_take_bit 31 (sint a + uint w)"
    by (simp only: sint_sbintrunc') simp
  also have "\<dots> = sint a + uint w"
    using lo assms by (simp add: signed_take_bit_int_eq_self)
  finally show ?thesis .
qed

lemma sint_add_of_nat:
  fixes a w :: "32 word"
  assumes "sint a + uint w < 2 ^ 31" and "k < unat w"
  shows "sint (a + of_nat k) = sint a + int k"
proof -
  have kw: "int k < uint w"
    unfolding uint_nat using assms(2) by (simp only: of_nat_less_iff)
  have "unat w < 2 ^ 32"
    using unsigned_less [of w, where 'a = nat] by simp
  with assms(2) have "unat (of_nat k :: 32 word) = k"
    by (simp add: unat_of_nat)
  then have "uint (of_nat k :: 32 word) = int k"
    by (simp only: uint_nat)
  moreover from this kw assms(1) have "sint a + uint (of_nat k :: 32 word) < 2 ^ 31"
    by simp
  ultimately show ?thesis
    using sint_add_unsigned [of a "of_nat k"] by simp
qed

lemma unat_index:
  fixes w r :: "32 word"
  assumes "k < unat w" and "l < unat r"
  shows "unat (of_nat l * w + of_nat k) = (l * unat w + k) mod 2 ^ 32"
proof -
  have "unat w < 2 ^ 32" "unat r < 2 ^ 32"
    using unsigned_less [of w, where 'a = nat] unsigned_less [of r, where 'a = nat] by simp_all
  with assms have "k < 2 ^ 32" "l < 2 ^ 32"
    by simp_all
  then have "unat (of_nat k :: 32 word) = k" "unat (of_nat l :: 32 word) = l"
    by (simp_all add: unat_of_nat)
  then show ?thesis
    by (simp add: unat_word_ariths mod_simps)
qed

lemma concat_product:
  "concat (map (\<lambda>k. concat (map (f k) ys)) xs) = concat (map (\<lambda>(k, l). f k l) (List.product xs ys))"
  by (induction xs) (simp_all add: comp_def)

lemma points_emitted_append: "points_emitted (xs @ ys) = points_emitted xs + points_emitted ys"
  by (simp add: points_emitted_def)

lemma points_emitted_concat_one:
  assumes "\<And>x. x \<in> set xs \<Longrightarrow> points_emitted (f x) = 1"
  shows "points_emitted (concat (map f xs)) = length xs"
  using assms by (induction xs) (simp_all add: points_emitted_append, simp add: points_emitted_def)

subsection \<open>The glyph loop\<close>

lemma DrawBitmap_append:
  "DrawBitmap bm offset top' cR cG cB cA gx = gx @ DrawBitmap bm offset top' cR cG cB cA []"
  by (simp add: DrawBitmap_unfold [where gx = gx] DrawBitmap_unfold [where gx = "[]"])

lemma text_width_Cons:
  "text_width (s # ss) = kern_px s + (if st_loaded s then advance_px s else 0) + text_width ss"
  by (simp add: text_width_def)

lemma PrintfTTFW_loop_fst:
  "fst (PrintfTTFW_loop ext f x y penY cR cG cB cA noprint s (penX, prev, w))
     = penX + text_width (glyph_steps ext f (env w) prev s)"
proof (induction s arbitrary: penX prev w)
  case Nil
  show ?case by (simp add: text_width_def)
next
  case (Cons c cs)
  show ?case
    by (simp add: Let_def Cons.IH text_width_Cons st_loaded_def kern_px_def advance_px_def)
       (simp add: text_width_def)
qed

lemma PrintfTTFW_loop_log:
  "log (snd (PrintfTTFW_loop ext f x y penY cR cG cB cA noprint s (penX, prev, w)))
     = log w @ concat (map (step_calls f x y penY cR cG cB cA noprint)
                   (zip (glyph_steps ext f (env w) prev s)
                        (pen_positions penX (glyph_steps ext f (env w) prev s))))"
proof (induction s arbitrary: penX prev w)
  case Nil
  show ?case by simp
next
  case (Cons c cs)
  show ?case
    by (simp add: Let_def Cons.IH step_calls_def st_loaded_def kern_px_def advance_px_def
          DrawBitmap_append [where gx = "_ @ _"])
qed

lemma chars_looked_up_append:
  "chars_looked_up (xs @ ys) = chars_looked_up xs @ chars_looked_up ys"
  by (induction xs rule: chars_looked_up.induct) simp_all

lemma glyphs_loaded_append:
  "glyphs_loaded (xs @ ys) = glyphs_loaded xs @ glyphs_loaded ys"
  by (induction xs rule: glyphs_loaded.induct) simp_all

lemma chars_looked_up_GX: "\<forall>e\<in>set evs. is_GX e \<Longrightarrow> chars_looked_up evs = []"
  by (induction evs rule: chars_looked_up.induct) simp_all

lemma glyphs_loaded_GX: "\<forall>e\<in>set evs. is_GX e \<Longrightarrow> glyphs_loaded evs = []"
  by (induction evs rule: glyphs_loaded.induct) simp_all

lemma DrawBitmap_all_GX: "\<forall>e\<in>set (DrawBitmap bm offset top' cR cG cB cA []). is_GX e"
  by (auto simp add: DrawBitmap_unfold DrawBitmap_cell_def)

lemma filter_GX_DrawBitmap:
  "filter is_GX (DrawBitmap bm offset top' cR cG cB cA []) = DrawBitmap bm offset top' cR cG cB cA []"
  using DrawBitmap_all_GX [of bm offset top' cR cG cB cA] by (simp only: filter_id_conv)

lemma set_pixel_sizes_log:
  "log (set_pixel_sizes ext w F n) =
     log w @ (if fst (FT_Set_Pixel_Sizes ext (env w) F 0 n) \<noteq> 0
              then [Ev_FT_Set_Pixel_Sizes F 0 n, Ev_FT_Set_Pixel_Sizes F 0 12]
              else [Ev_FT_Set_Pixel_Sizes F 0 n])"
  by (simp add: set_pixel_sizes_def Let_def split: prod.splits)

lemma st_char_glyph_steps:
  "map st_char (glyph_steps ext f e prev s) = takeWhile (\<lambda>c. c \<noteq> 0) s"
  by (induction s arbitrary: e prev) (simp_all add: Let_def)

lemma chars_looked_up_step:
  "chars_looked_up (step_calls f x y penY cR cG cB cA noprint (s, pen)) = [st_char s]"
  by (simp add: step_calls_def chars_looked_up_append chars_looked_up_GX DrawBitmap_all_GX
        split: option.splits)

lemma glyphs_loaded_step:
  "glyphs_loaded (step_calls f x y penY cR cG cB cA noprint (s, pen)) = [(st_glyph s, FT_LOAD_RENDER)]"
  by (simp add: step_calls_def glyphs_loaded_append glyphs_loaded_GX DrawBitmap_all_GX
        split: option.splits)

lemma chars_looked_up_steps:
  "chars_looked_up (concat (map (step_calls f x y penY cR cG cB cA noprint)
       (zip steps (pen_positions pen steps)))) = map st_char steps"
proof (induction steps arbitrary: pen)
  case Nil
  show ?case by simp
next
  case (Cons s ss)
  show ?case
    by (simp add: Cons.IH chars_looked_up_append chars_looked_up_step)
qed

lemma glyphs_loaded_steps:
  "glyphs_loaded (concat (map (step_calls f x y penY cR cG cB cA noprint)
       (zip steps (pen_positions pen steps)))) = map (\<lambda>s. (st_glyph s, FT_LOAD_RENDER)) steps"
proof (induction steps arbitrary: pen)
  case Nil
  show ?case by simp
next
  case (Cons s ss)
  show ?case
    by (simp add: Cons.IH glyphs_loaded_append glyphs_loaded_step)
qed

lemma filter_GX_steps_noprint:
  "filter is_GX (concat (map (step_calls f x y penY cR cG cB cA True) zs)) = []"
  by (induction zs) (auto simp add: step_calls_def split: option.splits)

lemma filter_GX_steps_print:
  "filter is_GX (concat (map (step_calls f x y penY cR cG cB cA False) zs))
     = concat (map (\<lambda>(s, pen). DrawBitmap (bitmap (st_slot s))
                  (pen + bitmap_left (st_slot s) + x) (penY - bitmap_top (st_slot s) + y)
                  cR cG cB cA [])
               (filter (\<lambda>(s, pen). st_loaded s) zs))"
  by (induction zs) (auto simp add: step_calls_def filter_GX_DrawBitmap split: option.splits)

lemma static_PrintfTTFW_fst:
  "fst (static_PrintfTTFW ext w x y (Some f) (Some s) fontSize color noprint)
     = text_width (glyph_steps ext f (env (set_pixel_sizes ext w (face f) fontSize)) 0 s)"
  by (simp add: static_PrintfTTFW_def PrintfTTFW_loop_fst)

lemma static_PrintfTTFW_log:
  "log (snd (static_PrintfTTFW ext w x y (Some f) (Some s) fontSize color noprint))
     = log (set_pixel_sizes ext w (face f) fontSize)
       @ concat (map (step_calls f x y fontSize (R ext color) (G ext color) (B ext color) (A ext color) noprint)
           (zip (glyph_steps ext f (env (set_pixel_sizes ext w (face f) fontSize)) 0 s)
                (pen_positions 0
                   (glyph_steps ext f (env (set_pixel_sizes ext w (face f) fontSize)) 0 s))))"
  by (simp add: static_PrintfTTFW_def PrintfTTFW_loop_log)

lemma static_PrintfTTFW_fst_indep:
  "fst (static_PrintfTTFW ext w x y myFont utf32 fontSize color noprint)
     = fst (static_PrintfTTFW ext w x' y' myFont utf32 fontSize color' noprint')"
proof (cases myFont)
  case None
  then show ?thesis by (simp add: static_PrintfTTFW_def)
next
  case (Some f)
  show ?thesis
  proof (cases utf32)
    case None
    with Some show ?thesis by (simp add: static_PrintfTTFW_def)
  next
    case (Some s)
    with \<open>myFont = Some f\<close> show ?thesis by (simp only: static_PrintfTTFW_fst)
  qed
qed

lemma static_PrintfTTFW_noprint_GX:
  "filter is_GX (log (snd (static_PrintfTTFW ext w x y myFont utf32 fontSize color True)))
     = filter is_GX (log w)"
proof (cases myFont)
  case None
  then show ?thesis by (simp add: static_PrintfTTFW_def)
next
  case (Some f)
  show ?thesis
  proof (cases utf32)
    case None
    with Some show ?thesis by (simp add: static_PrintfTTFW_def)
  next
    case (Some s)
    with \<open>myFont = Some f\<close> show ?thesis
      by (simp add: static_PrintfTTFW_log filter_GX_steps_noprint set_pixel_sizes_log)
  qed
qed

lemma static_PrintfTTF_fst_indep:
  "fst (static_PrintfTTF ext w x y myFont string fontSize color noprint)
     = fst (static_PrintfTTF ext w x' y' myFont string fontSize color' noprint')"
  using static_PrintfTTFW_fst_indep [of ext w x y myFont _ fontSize color noprint x' y' color' noprint']
  by (simp add: static_PrintfTTF_def split: option.splits)

lemma static_PrintfTTF_noprint_GX:
  "filter is_GX (log (snd (static_PrintfTTF ext w x y myFont string fontSize color True)))
     = filter is_GX (log w)"
  by (simp add: static_PrintfTTF_def static_PrintfTTFW_noprint_GX split: option.splits)

subsection \<open>Kerning queries and the width as an integer\<close>

lemma kerning_queries_append:
  "kerning_queries (xs @ ys) = kerning_queries xs @ kerning_queries ys"
  by (induction xs rule: kerning_queries.induct) simp_all

lemma kerning_queries_GX: "\<forall>e\<in>set evs. is_GX e \<Longrightarrow> kerning_queries evs = []"
  by (induction evs rule: kerning_queries.induct) simp_all

lemma kerning_queries_step:
  "kerning_queries (step_calls f x y penY cR cG cB cA noprint (s, pen))
     = (if st_kern s \<noteq> None then [(st_prev s, st_glyph s)] else [])"
  by (simp add: step_calls_def kerning_queries_append kerning_queries_GX DrawBitmap_all_GX
        split: option.splits)

lemma kerning_queries_steps:
  "kerning_queries (concat (map (step_calls f x y penY cR cG cB cA noprint)
       (zip steps (pen_positions pen steps))))
     = map (\<lambda>s. (st_prev s, st_glyph s)) (filter (\<lambda>s. st_kern s \<noteq> None) steps)"
proof (induction steps arbitrary: pen)
  case Nil
  show ?case by simp
next
  case (Cons s ss)
  show ?case
    by (simp add: Cons.IH kerning_queries_append kerning_queries_step)
qed

lemma kerning_queries_set_pixel_sizes:
  "kerning_queries (log (set_pixel_sizes ext w F n)) = kerning_queries (log w)"
  by (simp add: set_pixel_sizes_log kerning_queries_append)

lemma last_loaded_Nil: "last_loaded d [] = d"
  by (simp add: last_loaded_def)

lemma last_loaded_Cons:
  "last_loaded d (st # xs) = last_loaded (if st_loaded st then st_glyph st else d) xs"
  by (simp add: last_loaded_def)

lemma map_upt_Suc_shift: "map h [0..<Suc n] = h 0 # map (\<lambda>i. h (Suc i)) [0..<n]"
  by (simp add: upt_conv_Cons map_Suc_upt [symmetric] comp_def del: upt_Suc)

lemma st_prev_glyph_steps:
  "map st_prev (glyph_steps ext f e d s)
     = map (\<lambda>i. last_loaded d (take i (glyph_steps ext f e d s)))
         [0..<length (glyph_steps ext f e d s)]"
proof (induction s arbitrary: e d)
  case Nil
  show ?case by simp
next
  case (Cons c cs)
  show ?case
  proof (cases "c = 0")
    case True
    then show ?thesis by simp
  next
    case False
    then show ?thesis
      by (simp add: Let_def map_upt_Suc_shift last_loaded_Nil last_loaded_Cons st_loaded_def
            Cons.IH [symmetric] del: upt_Suc)
  qed
qed

lemma st_kern_glyph_steps:
  "st \<in> set (glyph_steps ext f e d s) \<Longrightarrow>
     (st_kern st \<noteq> None) = (kerning f \<and> st_prev st \<noteq> 0 \<and> st_glyph st \<noteq> 0)"
  by (induction s arbitrary: e d) (auto simp add: Let_def split: if_splits)

lemma st_prev_nth:
  assumes "i < length (glyph_steps ext f e d s)"
  shows "st_prev (glyph_steps ext f e d s ! i) = last_loaded d (take i (glyph_steps ext f e d s))"
proof -
  have "map st_prev (glyph_steps ext f e d s) ! i
          = map (\<lambda>i. last_loaded d (take i (glyph_steps ext f e d s)))
              [0..<length (glyph_steps ext f e d s)] ! i"
    by (rule arg_cong [where f = "\<lambda>xs. xs ! i"], rule st_prev_glyph_steps)
  with assms show ?thesis
    by simp
qed

lemma st_kern_nth:
  assumes "i < length (glyph_steps ext f e d s)"
  shows "(st_kern (glyph_steps ext f e d s ! i) \<noteq> None)
           = (kerning f \<and> last_loaded d (take i (glyph_steps ext f e d s)) \<noteq> 0
              \<and> st_glyph (glyph_steps ext f e d s ! i) \<noteq> 0)"
proof -
  have "glyph_steps ext f e d s ! i \<in> set (glyph_steps ext f e d s)"
    using assms by simp
  from st_kern_glyph_steps [OF this] show ?thesis
    by (simp only: st_prev_nth [OF assms])
qed

lemma filter_by_index:
  "map g (filter P xs) = map (\<lambda>i. g (xs ! i)) (filter (\<lambda>i. P (xs ! i)) [0..<length xs])"
proof -
  have "map g (filter P (map ((!) xs) [0..<length xs]))
          = map (\<lambda>i. g (xs ! i)) (filter (\<lambda>i. P (xs ! i)) [0..<length xs])"
    by (simp add: filter_map comp_def)
  then show ?thesis
    by (simp only: map_nth)
qed

lemma kerning_pairs_glyph_steps:
  fixes ext f e d s
  defines "steps \<equiv> glyph_steps ext f e d s"
  shows "map (\<lambda>st. (st_prev st, st_glyph st)) (filter (\<lambda>st. st_kern st \<noteq> None) steps)
     = map (\<lambda>i. (last_loaded d (take i steps), st_glyph (steps ! i)))
         (filter (\<lambda>i. kerning f \<and> last_loaded d (take i steps) \<noteq> 0 \<and> st_glyph (steps ! i) \<noteq> 0)
            [0..<length steps])"
proof -
  have p: "st_prev (steps ! i) = last_loaded d (take i steps)" if "i < length steps" for i
    using that unfolding steps_def by (rule st_prev_nth)
  have k: "(st_kern (steps ! i) \<noteq> None)
             = (kerning f \<and> last_loaded d (take i steps) \<noteq> 0 \<and> st_glyph (steps ! i) \<noteq> 0)"
    if "i < length steps" for i
    using that unfolding steps_def by (rule st_kern_nth)
  have "map (\<lambda>st. (st_prev st, st_glyph st)) (filter (\<lambda>st. st_kern st \<noteq> None) steps)
          = map (\<lambda>i. (st_prev (steps ! i), st_glyph (steps ! i)))
              (filter (\<lambda>i. st_kern (steps ! i) \<noteq> None) [0..<length steps])"
    by (rule filter_by_index)
  also have "\<dots> = map (\<lambda>i. (last_loaded d (take i steps), st_glyph (steps ! i)))
              (filter (\<lambda>i. st_kern (steps ! i) \<noteq> None) [0..<length steps])"
    by (rule map_cong [OF refl]) (simp add: p)
  also have "filter (\<lambda>i. st_kern (steps ! i) \<noteq> None) [0..<length steps]
          = filter (\<lambda>i. kerning f \<and> last_loaded d (take i steps) \<noteq> 0 \<and> st_glyph (steps ! i) \<noteq> 0)
              [0..<length steps]"
    by (rule filter_cong [OF refl], rule k) simp
  finally show ?thesis .
qed

lemma word_of_int_sum_list_sint:
  "(word_of_int (sum_list (map (\<lambda>x. sint (g x)) xs)) :: 32 word) = sum_list (map g xs)"
  by (induction xs) simp_all

lemma uint_text_width:
  "uint (text_width steps)
     = (sum_list (map (\<lambda>st. sint (advance_px st)) (filter st_loaded steps))
        + sum_list (map (\<lambda>st. sint (kern_px st)) steps)) mod 2 ^ 32"
proof -
  have "text_width steps
          = word_of_int (sum_list (map (\<lambda>st. sint (advance_px st)) (filter st_loaded steps))
                         + sum_list (map (\<lambda>st. sint (kern_px st)) steps))"
    by (simp add: text_width_def word_of_int_sum_list_sint)
  then show ?thesis
    by (simp only: uint_word_of_int) simp
qed

lemma sum_list_filter_zero:
  assumes "\<And>i. i \<in> set is \<Longrightarrow> \<not> P i \<Longrightarrow> g i = (0 :: int)"
  shows "sum_list (map g (filter P is)) = sum_list (map g is)"
  using assms by (induction "is") auto

lemma kern_px_unqueried:
  assumes "i < length (glyph_steps ext f e d s)"
    and "\<not> (kerning f \<and> last_loaded d (take i (glyph_steps ext f e d s)) \<noteq> 0
            \<and> st_glyph (glyph_steps ext f e d s ! i) \<noteq> 0)"
  shows "sint (kern_px (glyph_steps ext f e d s ! i)) = 0"
proof -
  from st_kern_nth [OF assms(1)] assms(2) have "st_kern (glyph_steps ext f e d s ! i) = None"
    by blast
  then show ?thesis
    by (simp add: kern_px_def)
qed

lemma sum_kern_px_queried:
  fixes ext f e d s
  defines "steps \<equiv> glyph_steps ext f e d s"
  shows "sum_list (map (\<lambda>st. sint (kern_px st)) steps)
     = sum_list (map (\<lambda>i. sint (kern_px (steps ! i)))
         (filter (\<lambda>i. kerning f \<and> last_loaded d (take i steps) \<noteq> 0 \<and> st_glyph (steps ! i) \<noteq> 0)
            [0..<length steps]))"
proof -
  have "sum_list (map (\<lambda>st. sint (kern_px st)) steps)
          = sum_list (map (\<lambda>st. sint (kern_px st)) (map ((!) steps) [0..<length steps]))"
    by (simp only: map_nth)
  also have "\<dots> = sum_list (map (\<lambda>i. sint (kern_px (steps ! i))) [0..<length steps])"
    by (simp only: map_map comp_def)
  also have "\<dots> = sum_list (map (\<lambda>i. sint (kern_px (steps ! i)))
         (filter (\<lambda>i. kerning f \<and> last_loaded d (take i steps) \<noteq> 0 \<and> st_glyph (steps ! i) \<noteq> 0)
            [0..<length steps]))"
    unfolding steps_def
    by (rule sum_list_filter_zero [symmetric], rule kern_px_unqueried) simp_all
  finally show ?thesis .
qed

subsection \<open>GRRLIB\_LoadTTF, case by case\<close>

lemma GRRLIB_LoadTTF_NULL_iff:
  "(\<exists>w'. GRRLIB_LoadTTF ext w file_base file_size = Inr (None, w'))
     \<longleftrightarrow> fst (FT_New_Memory_Face ext (env w) file_base file_size 0) \<noteq> 0"
  by (auto simp add: GRRLIB_LoadTTF_def Let_def split: prod.splits)

lemma GRRLIB_LoadTTF_handle:
  assumes "FT_New_Memory_Face ext (env w) file_base file_size 0 = (0, Face, e1)"
    and "malloc ext e1 = (True, e2)"
  shows "GRRLIB_LoadTTF ext w file_base file_size
           = Inr (Some \<lparr>face = Face, kerning = FT_HAS_KERNING ext e2 Face\<rparr>,
                  \<lparr>env = e2, log = log w @ [Ev_FT_New_Memory_Face file_base file_size 0, Ev_malloc]\<rparr>)"
  using assms by (simp add: GRRLIB_LoadTTF_def Let_def)

lemma GRRLIB_LoadTTF_malloc_NULL:
  assumes "FT_New_Memory_Face ext (env w) file_base file_size 0 = (0, Face, e1)"
    and "malloc ext e1 = (False, e2)"
  shows "GRRLIB_LoadTTF ext w file_base file_size = Inl NullDereference"
  using assms by (simp add: GRRLIB_LoadTTF_def Let_def)

section \<open>The claims\<close>

text \<open>
  C1. Measuring computes the same width as drawing, without drawing: from the same state,
  \<open>GRRLIB_WidthTTFW\<close> returns what \<open>GRRLIB_PrintfTTFW\<close> returns, for every font pointer
  (\<open>NULL\<close> included), every wide string, size, position and colour, and the GX calls of
  the log are the same after it as before; likewise \<open>GRRLIB_WidthTTF\<close> and
  \<open>GRRLIB_PrintfTTF\<close> for every \<open>char *\<close> string.
\<close>

theorem width_equals_printf:
  "fst (GRRLIB_WidthTTFW ext w myFont utf32 fontSize)
     = fst (GRRLIB_PrintfTTFW ext w x y myFont utf32 fontSize color)
   \<and> filter is_GX (log (snd (GRRLIB_WidthTTFW ext w myFont utf32 fontSize))) = filter is_GX (log w)
   \<and> fst (GRRLIB_WidthTTF ext w myFont string fontSize)
     = fst (GRRLIB_PrintfTTF ext w x y myFont string fontSize color)
   \<and> filter is_GX (log (snd (GRRLIB_WidthTTF ext w myFont string fontSize))) = filter is_GX (log w)"
  unfolding GRRLIB_WidthTTFW_def GRRLIB_PrintfTTFW_def GRRLIB_WidthTTF_def GRRLIB_PrintfTTF_def
  using static_PrintfTTFW_fst_indep [of ext w 0 0 myFont utf32 fontSize 0 True x y color False]
    static_PrintfTTF_fst_indep [of ext w 0 0 myFont string fontSize 0 True x y color False]
  by (simp only: static_PrintfTTFW_noprint_GX static_PrintfTTF_noprint_GX)

theorem width_equals_printf_witness:
  "fst (GRRLIB_WidthTTFW toy_ext toy_world (Some toy_font) (Some [65, 67, 66]) 16)
     = fst (GRRLIB_PrintfTTFW toy_ext toy_world 100 200 (Some toy_font) (Some [65, 67, 66]) 16 0x0A0B0CFF)
   \<and> filter is_GX (log (snd (GRRLIB_WidthTTFW toy_ext toy_world (Some toy_font) (Some [65, 67, 66]) 16)))
     = []"
  using width_equals_printf [of toy_ext toy_world "Some toy_font" "Some [65, 67, 66]" 16 100 200
      "0x0A0B0CFF"]
  by (simp add: toy_world_def)

text \<open>
  C2. \<open>DrawBitmap\<close> emits one point for every cell its two loops visit and nothing else,
  and the point of a cell with coverage \<open>b\<close>, drawn with a colour whose alpha is \<open>cA\<close>,
  carries the red, green and blue of the text unchanged and the alpha
  \<open>max 0 (b - (255 - cA))\<close>. For every \<open>b\<close> and \<open>cA\<close> that number is the value of the \<open>s16\<close>
  variable, lies between 0 and 255, and is the value of the \<open>u8\<close> that \<open>GX_Color4u8\<close>
  receives: nothing is cut off.
\<close>

theorem DrawBitmap_alpha_composite:
  "DrawBitmap bm offset top' cR cG cB cA gx =
     gx @ concat (map (\<lambda>k. concat (map (\<lambda>l.
            [GX_Begin GX_POINTS GX_VTXFMT0 1,
             GX_Position3f32 (f32_of_int (sint (offset + of_nat k)))
               (f32_of_int (sint (top' + of_nat l))) 0,
             GX_Color4u8 cR cG cB
               (word_of_int
                  (max 0 (uint (buffer bm (unat (of_nat l * width bm + of_nat k))) - (255 - uint cA)))),
             GX_End])
          [0..<nat (sint (top' + rows bm) - sint top')]))
        [0..<nat (sint (offset + width bm) - sint offset)])
   \<and> (let a = max 0 (uint b - (255 - uint cA))
      in sint (DrawBitmap_alpha b cA) = a
         \<and> uint (ucast (DrawBitmap_alpha b cA) :: u8) = a
         \<and> uint (word_of_int a :: u8) = a
         \<and> 0 \<le> a \<and> a \<le> 255)"
proof -
  define a where "a = max 0 (uint b - (255 - uint cA))"
  have r: "0 \<le> a" "a \<le> 255"
    unfolding a_def using alpha_range [of b cA] by simp_all
  have al: "DrawBitmap_alpha b cA = word_of_int a"
    unfolding a_def by (rule alpha_eq)
  have s: "sint (DrawBitmap_alpha b cA) = a"
    unfolding al using r by (simp add: sint_small16)
  have u: "uint (word_of_int a :: u8) = a"
    using r by (rule uint_small8)
  have u': "uint (ucast (DrawBitmap_alpha b cA) :: u8) = a"
    unfolding al ucast_16_8 by (rule u)
  have d: "DrawBitmap bm offset top' cR cG cB cA gx =
     gx @ concat (map (\<lambda>k. concat (map (\<lambda>l.
            [GX_Begin GX_POINTS GX_VTXFMT0 1,
             GX_Position3f32 (f32_of_int (sint (offset + of_nat k)))
               (f32_of_int (sint (top' + of_nat l))) 0,
             GX_Color4u8 cR cG cB
               (word_of_int
                  (max 0 (uint (buffer bm (unat (of_nat l * width bm + of_nat k))) - (255 - uint cA)))),
             GX_End])
          [0..<nat (sint (top' + rows bm) - sint top')]))
        [0..<nat (sint (offset + width bm) - sint offset)])"
    by (simp only: DrawBitmap_unfold DrawBitmap_cell_eq)
  from d s u u' r show ?thesis
    unfolding Let_def a_def [symmetric] by (intro conjI)
qed

theorem DrawBitmap_alpha_composite_witness:
  "DrawBitmap toy_bitmap 10 20 1 2 3 200 []
     = [GX_Begin GX_POINTS GX_VTXFMT0 1, GX_Position3f32 10 20 0, GX_Color4u8 1 2 3 0, GX_End,
        GX_Begin GX_POINTS GX_VTXFMT0 1, GX_Position3f32 10 21 0, GX_Color4u8 1 2 3 85, GX_End,
        GX_Begin GX_POINTS GX_VTXFMT0 1, GX_Position3f32 11 20 0, GX_Color4u8 1 2 3 25, GX_End,
        GX_Begin GX_POINTS GX_VTXFMT0 1, GX_Position3f32 11 21 0, GX_Color4u8 1 2 3 145, GX_End
          :: unit event]"
proof -
  have two: "[0..<2] = [0, Suc 0]"
    by (simp add: upt_rec)
  show ?thesis
    using DrawBitmap_alpha_composite [of toy_bitmap 10 20 1 2 3 200 "[] :: unit event list" 0,
        THEN conjunct1]
    by (simp add: toy_bitmap_def two f32_of_int_exact)
qed

text \<open>
  C3, as amended. The value returned by \<open>_PrintfTTFW\<close> for a font and a wide string that
  are not \<open>NULL\<close>, whatever the position, the colour and the mode (hence by
  \<open>GRRLIB_PrintfTTFW\<close> and by \<open>GRRLIB_WidthTTFW\<close>), equals modulo \<open>2 ^ 32\<close> the sum of
  \<open>advance.x >> 6\<close> over the characters whose glyph loads, plus the sum of \<open>delta.x >> 6\<close>
  over the kerning queries that are made. When the font has kerning, a query is made for
  each character whose glyph index is not 0, against the glyph that loaded last before it
  when there is one and its index is not 0; its delta is added also when the glyph of the
  character then fails to load. The pairs below are read off the log of the code. The
  points drawn are those of the glyphs that loaded: a character whose glyph fails to load
  adds no advance and no point.
\<close>

theorem rendered_text_width:
  "(let steps = glyph_steps ext f (env (set_pixel_sizes ext w (face f) fontSize)) 0 s;
        queried = filter (\<lambda>i. kerning f \<and> last_loaded 0 (take i steps) \<noteq> 0
                               \<and> st_glyph (steps ! i) \<noteq> 0)
                    [0..<length steps];
        total = sum_list (map (\<lambda>st. sint (advance_px st)) (filter st_loaded steps))
                + sum_list (map (\<lambda>i. sint (kern_px (steps ! i))) queried)
    in uint (fst (static_PrintfTTFW ext w x y (Some f) (Some s) fontSize color noprint))
         = total mod 2 ^ 32
       \<and> uint (fst (GRRLIB_PrintfTTFW ext w x y (Some f) (Some s) fontSize color)) = total mod 2 ^ 32
       \<and> uint (fst (GRRLIB_WidthTTFW ext w (Some f) (Some s) fontSize)) = total mod 2 ^ 32
       \<and> kerning_queries
             (log (snd (static_PrintfTTFW ext w x y (Some f) (Some s) fontSize color noprint)))
           = kerning_queries (log w)
             @ map (\<lambda>i. (last_loaded 0 (take i steps), st_glyph (steps ! i))) queried
       \<and> filter is_GX (log (snd (GRRLIB_PrintfTTFW ext w x y (Some f) (Some s) fontSize color)))
           = filter is_GX (log w)
             @ concat (map (\<lambda>(st, pen).
                   DrawBitmap (bitmap (st_slot st))
                     (pen + bitmap_left (st_slot st) + x) (fontSize - bitmap_top (st_slot st) + y)
                     (R ext color) (G ext color) (B ext color) (A ext color) [])
                 (filter (\<lambda>(st, pen). st_loaded st) (zip steps (pen_positions 0 steps)))))"
proof -
  define steps where "steps = glyph_steps ext f (env (set_pixel_sizes ext w (face f) fontSize)) 0 s"
  define queried where "queried = filter (\<lambda>i. kerning f \<and> last_loaded 0 (take i steps) \<noteq> 0
                               \<and> st_glyph (steps ! i) \<noteq> 0)
                    [0..<length steps]"
  define total where "total = sum_list (map (\<lambda>st. sint (advance_px st)) (filter st_loaded steps))
                + sum_list (map (\<lambda>i. sint (kern_px (steps ! i))) queried)"
  have t: "total = sum_list (map (\<lambda>st. sint (advance_px st)) (filter st_loaded steps))
                + sum_list (map (\<lambda>st. sint (kern_px st)) steps)"
    unfolding total_def queried_def steps_def by (simp only: sum_kern_px_queried)
  have v: "uint (fst (static_PrintfTTFW ext w x' y' (Some f) (Some s) fontSize color' noprint'))
             = total mod 2 ^ 32" for x' y' color' noprint'
    by (simp only: static_PrintfTTFW_fst uint_text_width t steps_def)
  have q: "kerning_queries
             (log (snd (static_PrintfTTFW ext w x y (Some f) (Some s) fontSize color noprint)))
           = kerning_queries (log w)
             @ map (\<lambda>i. (last_loaded 0 (take i steps), st_glyph (steps ! i))) queried"
    unfolding queried_def steps_def
    by (simp only: static_PrintfTTFW_log kerning_queries_append kerning_queries_steps
          kerning_queries_set_pixel_sizes kerning_pairs_glyph_steps)
  have g: "filter is_GX (log (snd (static_PrintfTTFW ext w x y (Some f) (Some s) fontSize color False)))
           = filter is_GX (log w)
             @ concat (map (\<lambda>(st, pen).
                   DrawBitmap (bitmap (st_slot st))
                     (pen + bitmap_left (st_slot st) + x) (fontSize - bitmap_top (st_slot st) + y)
                     (R ext color) (G ext color) (B ext color) (A ext color) [])
                 (filter (\<lambda>(st, pen). st_loaded st) (zip steps (pen_positions 0 steps))))"
    unfolding steps_def
    by (simp add: static_PrintfTTFW_log filter_GX_steps_print set_pixel_sizes_log)
  from v q g show ?thesis
    unfolding Let_def GRRLIB_PrintfTTFW_def GRRLIB_WidthTTFW_def
      steps_def [symmetric] queried_def [symmetric] total_def [symmetric]
    by (intro conjI)
qed

theorem rendered_text_width_witness:
  "uint (fst (GRRLIB_PrintfTTFW toy_ext_kern toy_world 100 200 (Some toy_font) (Some [65, 67, 66]) 16
       0x0A0B0CFF)) = 18
   \<and> uint (fst (GRRLIB_WidthTTFW toy_ext_kern toy_world (Some toy_font) (Some [65, 67, 66]) 16)) = 18
   \<and> kerning_queries (log (snd (static_PrintfTTFW toy_ext_kern toy_world 100 200 (Some toy_font)
         (Some [65, 67, 66]) 16 0x0A0B0CFF False))) = [(65, 67), (65, 66)]"
proof -
  have three: "[0..<3] = [0, 1, 2]"
    by (simp add: upt_rec)
  show ?thesis
    using rendered_text_width [where ext = toy_ext_kern and w = toy_world and f = toy_font
      and s = "[65, 67, 66]" and fontSize = 16 and x = 100 and y = 200
      and color = "0x0A0B0CFF" and noprint = False]
    by (simp add: Let_def toy_ext_kern_def toy_ext_def toy_font_def toy_world_def set_pixel_sizes_def
          st_loaded_def kern_px_def advance_px_def last_loaded_def three)
qed

text \<open>
  C3 as stated fails in two ways. With a kerning that depends on the left glyph and a
  middle glyph that does not load, the code returns 18 for three characters where the
  kerning between consecutive glyphs gives 9 (consecutive characters) or 19 (consecutive
  loaded glyphs): the code pairs each character with the glyph that loaded last, and adds
  the delta before it knows whether the character loads. And the value returned is a
  \<open>u32\<close>: where the sum is \<open>- 80\<close> the code returns 4294967216.
\<close>

theorem rendered_text_width_counterexample:
  "uint (fst (GRRLIB_PrintfTTFW toy_ext_kern toy_world 100 200 (Some toy_font) (Some [65, 67, 66]) 16
       0x0A0B0CFF)) = 18
   \<and> claimed_width_characters toy_ext_kern (env toy_world) toy_font
         (glyph_steps toy_ext_kern toy_font (env toy_world) 0 [65, 67, 66]) = 9
   \<and> claimed_width_loaded toy_ext_kern (env toy_world) toy_font
         (glyph_steps toy_ext_kern toy_font (env toy_world) 0 [65, 67, 66]) = 19
   \<and> uint (fst (GRRLIB_WidthTTFW toy_ext_wide toy_world (Some toy_font) (Some [65, 66]) 16))
       = 4294967216
   \<and> claimed_width_characters toy_ext_wide (env toy_world) toy_font
         (glyph_steps toy_ext_wide toy_font (env toy_world) 0 [65, 66]) = - 80
   \<and> claimed_width_loaded toy_ext_wide (env toy_world) toy_font
         (glyph_steps toy_ext_wide toy_font (env toy_world) 0 [65, 66]) = - 80"
  by (simp add: GRRLIB_PrintfTTFW_def GRRLIB_WidthTTFW_def static_PrintfTTFW_fst text_width_def
        claimed_width_characters_def claimed_width_loaded_def claimed_kerning_def
        Let_def toy_ext_kern_def toy_ext_wide_def toy_ext_def toy_font_def toy_world_def
        set_pixel_sizes_def st_loaded_def kern_px_def advance_px_def)

text \<open>
  C4. The module does not convert the character encoding itself. When \<open>mbstowcs\<close> turns
  the \<open>char *\<close> string into the wide characters \<open>ws\<close>, \<open>GRRLIB_PrintfTTF\<close> and
  \<open>GRRLIB_WidthTTF\<close> do what the wide-string functions do on \<open>ws\<close> (nothing when \<open>ws\<close> is
  empty), and the character codes that reach the font engine are those of \<open>ws\<close> up to its
  terminator, unchanged and in order.
\<close>

theorem no_encoding_conversion:
  assumes "mbstowcs ext (env w) str = Some ws"
  shows "GRRLIB_PrintfTTF ext w x y (Some f) (Some str) fontSize color
           = (if ws = [] then (0, w) else GRRLIB_PrintfTTFW ext w x y (Some f) (Some ws) fontSize color)
         \<and> GRRLIB_WidthTTF ext w (Some f) (Some str) fontSize
           = (if ws = [] then (0, w) else GRRLIB_WidthTTFW ext w (Some f) (Some ws) fontSize)
         \<and> chars_looked_up (log (snd (GRRLIB_PrintfTTF ext w x y (Some f) (Some str) fontSize color)))
           = chars_looked_up (log w) @ takeWhile (\<lambda>c. c \<noteq> 0) ws
         \<and> chars_looked_up (log (snd (GRRLIB_WidthTTF ext w (Some f) (Some str) fontSize)))
           = chars_looked_up (log w) @ takeWhile (\<lambda>c. c \<noteq> 0) ws"
proof -
  have c: "chars_looked_up (log (snd (static_PrintfTTFW ext w x' y' (Some f) (Some ws) fontSize color' noprint)))
     = chars_looked_up (log w) @ takeWhile (\<lambda>c. c \<noteq> 0) ws" for x' y' color' noprint
    by (simp add: static_PrintfTTFW_log chars_looked_up_append chars_looked_up_steps
          st_char_glyph_steps set_pixel_sizes_log)
  show ?thesis
    using assms
    by (simp add: GRRLIB_PrintfTTF_def GRRLIB_WidthTTF_def GRRLIB_PrintfTTFW_def GRRLIB_WidthTTFW_def
          static_PrintfTTF_def c)
qed

theorem no_encoding_conversion_witness:
  "mbstowcs toy_ext (env toy_world) ''ACB'' = Some [65, 67, 66]
   \<and> GRRLIB_PrintfTTF toy_ext toy_world 100 200 (Some toy_font) (Some ''ACB'') 16 0x0A0B0CFF
       = GRRLIB_PrintfTTFW toy_ext toy_world 100 200 (Some toy_font) (Some [65, 67, 66]) 16 0x0A0B0CFF
   \<and> chars_looked_up (log (snd
         (GRRLIB_PrintfTTF toy_ext toy_world 100 200 (Some toy_font) (Some ''ACB'') 16 0x0A0B0CFF)))
       = [65, 67, 66]"
proof -
  have h: "mbstowcs toy_ext (env toy_world) ''ACB'' = Some [65, 67, 66]"
    by (simp add: toy_ext_def)
  note t = no_encoding_conversion [OF h, of 100 200 toy_font 16 "0x0A0B0CFF"]
  from t have a: "GRRLIB_PrintfTTF toy_ext toy_world 100 200 (Some toy_font) (Some ''ACB'') 16 0x0A0B0CFF
       = GRRLIB_PrintfTTFW toy_ext toy_world 100 200 (Some toy_font) (Some [65, 67, 66]) 16 0x0A0B0CFF"
    by simp
  from t [THEN conjunct2, THEN conjunct2, THEN conjunct1]
  have b: "chars_looked_up (log (snd
         (GRRLIB_PrintfTTF toy_ext toy_world 100 200 (Some toy_font) (Some ''ACB'') 16 0x0A0B0CFF)))
       = [65, 67, 66]"
    by (simp add: toy_world_def)
  from h a b show ?thesis
    by (intro conjI)
qed

text \<open>
  C5, as amended. For a bitmap of width \<open>w\<close> and \<open>r\<close> rows drawn at \<open>(offset, top)\<close> with
  \<open>offset + w\<close> and \<open>top + r\<close> not above \<open>INT_MAX\<close> and with every coordinate \<open>offset + p\<close>
  (\<open>p < w\<close>) and \<open>top + q\<close> (\<open>q < r\<close>) exactly representable as an \<open>f32\<close> (as all integers
  from \<open>- 2 ^ 24\<close> to \<open>2 ^ 24\<close> are), \<open>DrawBitmap\<close> emits exactly \<open>w * r\<close> points, one per
  cell \<open>(p, q)\<close> with \<open>p < w\<close> and \<open>q < r\<close>, column by column, at \<open>(offset + p, top + q, 0)\<close>,
  with the coverage read at index \<open>(q * w + p) mod 2 ^ 32\<close>.
\<close>

theorem DrawBitmap_geometry:
  assumes "sint offset + uint (width bm) < 2 ^ 31"
    and "sint top' + uint (rows bm) < 2 ^ 31"
    and "\<forall>p<unat (width bm). f32_of_int (sint offset + int p) = sint offset + int p"
    and "\<forall>q<unat (rows bm). f32_of_int (sint top' + int q) = sint top' + int q"
  shows "DrawBitmap bm offset top' cR cG cB cA gx =
           gx @ concat (map (\<lambda>(p, q).
                  [GX_Begin GX_POINTS GX_VTXFMT0 1,
                   GX_Position3f32 (sint offset + int p) (sint top' + int q) 0,
                   GX_Color4u8 cR cG cB
                     (ucast (DrawBitmap_alpha (buffer bm ((q * unat (width bm) + p) mod 2 ^ 32)) cA)),
                   GX_End])
                (List.product [0..<unat (width bm)] [0..<unat (rows bm)]))
         \<and> points_emitted (DrawBitmap bm offset top' cR cG cB cA gx)
             = points_emitted gx + unat (width bm) * unat (rows bm)"
proof -
  let ?pt = "\<lambda>p q. [GX_Begin GX_POINTS GX_VTXFMT0 1,
                   GX_Position3f32 (sint offset + int p) (sint top' + int q) 0,
                   GX_Color4u8 cR cG cB
                     (ucast (DrawBitmap_alpha (buffer bm ((q * unat (width bm) + p) mod 2 ^ 32)) cA)),
                   GX_End] :: 'a event list"
  have nx: "nat (sint (offset + width bm) - sint offset) = unat (width bm)"
    by (simp add: sint_add_unsigned [OF assms(1)])
  have ny: "nat (sint (top' + rows bm) - sint top') = unat (rows bm)"
    by (simp add: sint_add_unsigned [OF assms(2)])
  have cell: "DrawBitmap_cell bm (offset + of_nat k) (top' + of_nat l) (of_nat k) (of_nat l) cR cG cB cA
                = ?pt k l"
    if "k < unat (width bm)" "l < unat (rows bm)" for k l
    using that assms(3,4)
    by (simp add: DrawBitmap_cell_def sint_add_of_nat [OF assms(1)] sint_add_of_nat [OF assms(2)]
          unat_index)
  have inner: "concat (map (\<lambda>l. DrawBitmap_cell bm (offset + of_nat k) (top' + of_nat l)
                      (of_nat k) (of_nat l) cR cG cB cA) [0..<unat (rows bm)])
                = concat (map (?pt k) [0..<unat (rows bm)])"
    if "k < unat (width bm)" for k
    by (rule arg_cong [where f = concat], rule map_cong [OF refl]) (simp add: cell that)
  have outer: "concat (map (\<lambda>k. concat (map (\<lambda>l. DrawBitmap_cell bm (offset + of_nat k)
                     (top' + of_nat l) (of_nat k) (of_nat l) cR cG cB cA) [0..<unat (rows bm)]))
                   [0..<unat (width bm)])
                = concat (map (\<lambda>k. concat (map (?pt k) [0..<unat (rows bm)])) [0..<unat (width bm)])"
    by (rule arg_cong [where f = concat], rule map_cong [OF refl]) (simp add: inner)
  have "DrawBitmap bm offset top' cR cG cB cA gx =
           gx @ concat (map (\<lambda>k. concat (map (?pt k) [0..<unat (rows bm)])) [0..<unat (width bm)])"
    by (simp only: DrawBitmap_unfold nx ny outer)
  then have eq: "DrawBitmap bm offset top' cR cG cB cA gx =
           gx @ concat (map (\<lambda>(p, q). ?pt p q)
                (List.product [0..<unat (width bm)] [0..<unat (rows bm)]))"
    by (simp only: concat_product)
  have one: "points_emitted (case x of (p, q) \<Rightarrow> ?pt p q) = 1" for x
    by (cases x) (simp add: points_emitted_def)
  have "points_emitted (concat (map (\<lambda>(p, q). ?pt p q)
                (List.product [0..<unat (width bm)] [0..<unat (rows bm)])))
          = unat (width bm) * unat (rows bm)"
    by (subst points_emitted_concat_one) (simp_all only: one length_product length_upt, simp)
  with eq show ?thesis
    by (simp only: points_emitted_append)
qed

theorem DrawBitmap_geometry_witness:
  "sint (10 :: s32) + uint (width toy_bitmap) < 2 ^ 31
   \<and> sint (20 :: s32) + uint (rows toy_bitmap) < 2 ^ 31
   \<and> DrawBitmap toy_bitmap 10 20 1 2 3 200 []
       = [GX_Begin GX_POINTS GX_VTXFMT0 1, GX_Position3f32 10 20 0, GX_Color4u8 1 2 3 0, GX_End,
          GX_Begin GX_POINTS GX_VTXFMT0 1, GX_Position3f32 10 21 0, GX_Color4u8 1 2 3 85, GX_End,
          GX_Begin GX_POINTS GX_VTXFMT0 1, GX_Position3f32 11 20 0, GX_Color4u8 1 2 3 25, GX_End,
          GX_Begin GX_POINTS GX_VTXFMT0 1, GX_Position3f32 11 21 0, GX_Color4u8 1 2 3 145, GX_End
            :: unit event]
   \<and> points_emitted (DrawBitmap toy_bitmap 10 20 1 2 3 200 ([] :: unit event list)) = 4"
proof -
  have h1: "sint (10 :: s32) + uint (width toy_bitmap) < 2 ^ 31"
    by (simp add: toy_bitmap_def)
  have h2: "sint (20 :: s32) + uint (rows toy_bitmap) < 2 ^ 31"
    by (simp add: toy_bitmap_def)
  have h3: "\<forall>p<unat (width toy_bitmap). f32_of_int (sint (10 :: s32) + int p) = sint (10 :: s32) + int p"
    by (simp add: toy_bitmap_def f32_of_int_exact)
  have h4: "\<forall>q<unat (rows toy_bitmap). f32_of_int (sint (20 :: s32) + int q) = sint (20 :: s32) + int q"
    by (simp add: toy_bitmap_def f32_of_int_exact)
  have two: "[0..<2] = [0, Suc 0]"
    by (simp add: upt_rec)
  show ?thesis
    using h1 h2 DrawBitmap_geometry [OF h1 h2 h3 h4, of 1 2 3 200 "[] :: unit event list"]
    by (simp add: toy_bitmap_def two alpha_eq ucast_16_8 points_emitted_def)
qed

text \<open>
  C5 as stated fails in three ways. The coordinate is converted to \<open>f32\<close>: a cell drawn at
  \<open>offset = 16777217\<close> is emitted at \<open>x = 16777216\<close>. The sum \<open>offset + w\<close> wraps: a bitmap
  of one cell drawn at \<open>offset = INT_MAX\<close> gives \<open>x_max = INT_MIN\<close>, the outer loop does not
  run and no point is emitted, where \<open>w * r = 1\<close>. And the index is computed in 32 bits: in
  a bitmap of 65536 by 65537 cells the cell \<open>(0, 65536)\<close> has index \<open>2 ^ 32\<close>, where the
  coverage is 255, but no point with alpha 255 is emitted, the code reads index 0.
\<close>

theorem DrawBitmap_geometry_counterexample:
  "DrawBitmap pixel_bitmap 16777217 0 1 2 3 255 []
     = [GX_Begin GX_POINTS GX_VTXFMT0 1, GX_Position3f32 16777216 0 0, GX_Color4u8 1 2 3 255,
        GX_End :: unit event]
   \<and> DrawBitmap pixel_bitmap 0x7FFFFFFF 0 1 2 3 255 [] = ([] :: unit event list)
   \<and> unat (width pixel_bitmap) * unat (rows pixel_bitmap) = 1
   \<and> 0 < unat (width huge_bitmap) \<and> 65536 < unat (rows huge_bitmap)
   \<and> buffer huge_bitmap (65536 * unat (width huge_bitmap) + 0) = 255
   \<and> GX_Color4u8 1 2 3 255 \<notin> set (DrawBitmap huge_bitmap 0 0 1 2 3 255 ([] :: unit event list))"
proof -
  have one: "[0..<1] = [0]"
    by simp
  have a: "DrawBitmap pixel_bitmap 16777217 0 1 2 3 255 []
     = [GX_Begin GX_POINTS GX_VTXFMT0 1, GX_Position3f32 16777216 0 0, GX_Color4u8 1 2 3 255,
        GX_End :: unit event]"
    by (simp add: DrawBitmap_unfold DrawBitmap_cell_eq pixel_bitmap_def f32_of_int_16777217
          f32_of_int_exact)
  have b: "DrawBitmap pixel_bitmap 0x7FFFFFFF 0 1 2 3 255 [] = ([] :: unit event list)"
    by (simp add: DrawBitmap_unfold pixel_bitmap_def)
  have c: "unat (width pixel_bitmap) * unat (rows pixel_bitmap) = 1"
    by (simp add: pixel_bitmap_def)
  have d: "0 < unat (width huge_bitmap)" "65536 < unat (rows huge_bitmap)"
    "buffer huge_bitmap (65536 * unat (width huge_bitmap) + 0) = 255"
    by (simp_all add: huge_bitmap_def)
  have lt: "unat (x :: 32 word) \<noteq> 4294967296" for x
    using unsigned_less [of x, where 'a = nat] by simp
  have e: "GX_Color4u8 1 2 3 255 \<notin> set (DrawBitmap huge_bitmap 0 0 1 2 3 255 ([] :: unit event list))"
    by (auto simp add: DrawBitmap_unfold DrawBitmap_cell_eq huge_bitmap_def lt)
  from a b c d e show ?thesis
    by (intro conjI)
qed

text \<open>
  C6. Printing walks the characters of the string in order, and the calls it makes after
  setting the pixel size are, character by character: the glyph index lookup, the kerning
  query when there is one, then \<open>FT_Load_Glyph\<close> with \<open>FT_LOAD_RENDER\<close>, and only then,
  when the load succeeded, the points of \<open>DrawBitmap\<close> for that glyph at the pen position
  of that moment; the pen advances afterwards. The log holds nothing else: no point is
  drawn anywhere else.
\<close>

theorem two_call_sequence:
  "(let steps = glyph_steps ext f (env (set_pixel_sizes ext w (face f) fontSize)) 0 s
    in log (snd (GRRLIB_PrintfTTFW ext w x y (Some f) (Some s) fontSize color))
         = log w
           @ (if fst (FT_Set_Pixel_Sizes ext (env w) (face f) 0 fontSize) \<noteq> 0
              then [Ev_FT_Set_Pixel_Sizes (face f) 0 fontSize, Ev_FT_Set_Pixel_Sizes (face f) 0 12]
              else [Ev_FT_Set_Pixel_Sizes (face f) 0 fontSize])
           @ concat (map (\<lambda>(st, pen).
                 [Ev_FT_Get_Char_Index (face f) (st_char st)]
                 @ (case st_kern st of
                      None \<Rightarrow> []
                    | Some delta \<Rightarrow>
                        [Ev_FT_Get_Kerning (face f) (st_prev st) (st_glyph st) FT_KERNING_DEFAULT])
                 @ [Ev_FT_Load_Glyph (face f) (st_glyph st) FT_LOAD_RENDER]
                 @ (if st_loaded st
                    then DrawBitmap (bitmap (st_slot st))
                           (pen + bitmap_left (st_slot st) + x)
                           (fontSize - bitmap_top (st_slot st) + y)
                           (R ext color) (G ext color) (B ext color) (A ext color) []
                    else []))
               (zip steps (pen_positions 0 steps)))
       \<and> map st_char steps = takeWhile (\<lambda>c. c \<noteq> 0) s)"
proof -
  have "step_calls f x y fontSize (R ext color) (G ext color) (B ext color) (A ext color) False
          = (\<lambda>(st, pen).
                 [Ev_FT_Get_Char_Index (face f) (st_char st)]
                 @ (case st_kern st of
                      None \<Rightarrow> []
                    | Some delta \<Rightarrow>
                        [Ev_FT_Get_Kerning (face f) (st_prev st) (st_glyph st) FT_KERNING_DEFAULT])
                 @ [Ev_FT_Load_Glyph (face f) (st_glyph st) FT_LOAD_RENDER]
                 @ (if st_loaded st
                    then DrawBitmap (bitmap (st_slot st))
                           (pen + bitmap_left (st_slot st) + x)
                           (fontSize - bitmap_top (st_slot st) + y)
                           (R ext color) (G ext color) (B ext color) (A ext color) []
                    else []))"
    by (rule ext) (simp add: step_calls_def split: prod.splits)
  then show ?thesis
    unfolding Let_def GRRLIB_PrintfTTFW_def
    by (simp only: static_PrintfTTFW_log st_char_glyph_steps set_pixel_sizes_log append_assoc)
qed

theorem two_call_sequence_witness:
  "log (snd (GRRLIB_PrintfTTFW toy_ext toy_world 100 200 (Some toy_font) (Some [65, 67, 66]) 16
       0x0A0B0CFF))
     = [Ev_FT_Set_Pixel_Sizes 7 0 16,
        Ev_FT_Get_Char_Index 7 65, Ev_FT_Load_Glyph 7 65 FT_LOAD_RENDER,
        GX_Begin GX_POINTS GX_VTXFMT0 1, GX_Position3f32 101 214 0, GX_Color4u8 10 11 12 65, GX_End,
        Ev_FT_Get_Char_Index 7 67, Ev_FT_Get_Kerning 7 65 67 FT_KERNING_DEFAULT,
        Ev_FT_Load_Glyph 7 67 FT_LOAD_RENDER,
        Ev_FT_Get_Char_Index 7 66, Ev_FT_Get_Kerning 7 65 66 FT_KERNING_DEFAULT,
        Ev_FT_Load_Glyph 7 66 FT_LOAD_RENDER,
        GX_Begin GX_POINTS GX_VTXFMT0 1, GX_Position3f32 109 214 0, GX_Color4u8 10 11 12 66, GX_End]"
proof -
  have d: "DrawBitmap \<lparr>rows = 1, width = 1, buffer = \<lambda>k. b\<rparr> offset top' cR cG cB cA []
             = [GX_Begin GX_POINTS GX_VTXFMT0 1,
                GX_Position3f32 (f32_of_int (sint offset)) (f32_of_int (sint top')) 0,
                GX_Color4u8 cR cG cB b, GX_End :: nat event]"
    if "cA = 255" "offset <s offset + 1" "top' <s top' + 1" for b offset top' cR cG cB cA
    using that
    by (simp add: DrawBitmap_def DrawBitmap_cols.simps [of _ _ _ _ _ _ _ _ offset]
          DrawBitmap_cols.simps [of _ _ _ _ _ _ _ _ "offset + 1"]
          DrawBitmap_rows.simps [of _ _ _ _ _ _ _ _ top']
          DrawBitmap_rows.simps [of _ _ _ _ _ _ _ _ "top' + 1"]
          DrawBitmap_cell_def alpha_eq ucast_8_16_8)
  show ?thesis
    using two_call_sequence [where ext = toy_ext and w = toy_world and f = toy_font
      and s = "[65, 67, 66]" and fontSize = 16 and x = 100 and y = 200 and color = "0x0A0B0CFF"]
    by (simp add: Let_def toy_ext_def toy_font_def toy_world_def set_pixel_sizes_def
          st_loaded_def kern_px_def advance_px_def FT_LOAD_RENDER_def d f32_of_int_exact)
qed

text \<open>
  C7 fails on the code when \<open>malloc\<close> returns \<open>NULL\<close>: the face has been created, the
  function neither returns \<open>NULL\<close> nor a handle, it writes \<open>myFont->kerning\<close> through the
  null pointer. (\<open>GRRLIB_LoadTTF_NULL_iff\<close> and \<open>GRRLIB_LoadTTF_handle\<close> above are the claim
  when the allocation succeeds.)
\<close>

theorem GRRLIB_LoadTTF_out_of_memory:
  "fst (FT_New_Memory_Face toy_ext_oom (env toy_world) [0, 1, 0, 0] 4 0) = 0
   \<and> GRRLIB_LoadTTF toy_ext_oom toy_world [0, 1, 0, 0] 4 = Inl NullDereference"
  by (simp add: toy_ext_oom_def toy_ext_def toy_world_def GRRLIB_LoadTTF_def)

text \<open>
  C8. With a \<open>NULL\<close> font or a \<open>NULL\<close> string the four functions return 0 and leave the
  state as it was: no call is made, so no point is emitted. The same holds for the two
  \<open>char *\<close> functions when \<open>mbstowcs\<close> reports an invalid multibyte sequence.
\<close>

theorem degenerate_inputs:
  "GRRLIB_PrintfTTFW ext w x y None utf32 fontSize color = (0, w)
   \<and> GRRLIB_PrintfTTFW ext w x y myFont None fontSize color = (0, w)
   \<and> GRRLIB_WidthTTFW ext w None utf32 fontSize = (0, w)
   \<and> GRRLIB_WidthTTFW ext w myFont None fontSize = (0, w)
   \<and> GRRLIB_PrintfTTF ext w x y None string fontSize color = (0, w)
   \<and> GRRLIB_PrintfTTF ext w x y myFont None fontSize color = (0, w)
   \<and> GRRLIB_WidthTTF ext w None string fontSize = (0, w)
   \<and> GRRLIB_WidthTTF ext w myFont None fontSize = (0, w)
   \<and> (mbstowcs ext (env w) str = None \<longrightarrow>
        GRRLIB_PrintfTTF ext w x y myFont (Some str) fontSize color = (0, w)
        \<and> GRRLIB_WidthTTF ext w myFont (Some str) fontSize = (0, w))"
  by (simp add: GRRLIB_PrintfTTFW_def GRRLIB_WidthTTFW_def GRRLIB_PrintfTTF_def GRRLIB_WidthTTF_def
        static_PrintfTTFW_def static_PrintfTTF_def split: option.splits)

theorem degenerate_inputs_witness:
  "mbstowcs toy_ext (env toy_world) ''?'' = None
   \<and> GRRLIB_PrintfTTF toy_ext toy_world 100 200 (Some toy_font) (Some ''?'') 16 0x0A0B0CFF
       = (0, toy_world)
   \<and> GRRLIB_WidthTTF toy_ext toy_world (Some toy_font) (Some ''?'') 16 = (0, toy_world)"
proof -
  have h: "mbstowcs toy_ext (env toy_world) ''?'' = None"
    by (simp add: toy_ext_def)
  show ?thesis
    using h degenerate_inputs [of toy_ext toy_world 100 200 None 16 "0x0A0B0CFF" "Some toy_font" None "''?''"]
    by simp
qed

text \<open>
  C9. \<open>GRRLIB_FreeTTF\<close> of \<open>NULL\<close> does nothing. Otherwise it calls \<open>FT_Done_Face\<close> on the
  face of the handle and then \<open>free\<close> on the handle, in that order, and nothing else.
\<close>

theorem free_ttf:
  "GRRLIB_FreeTTF ext w None = w
   \<and> log (GRRLIB_FreeTTF ext w (Some f)) = log w @ [Ev_FT_Done_Face (face f), Ev_free f]
   \<and> env (GRRLIB_FreeTTF ext w (Some f)) = free ext (FT_Done_Face ext (env w) (face f)) f"
  by (simp add: GRRLIB_FreeTTF_def Let_def)

text \<open>
  C10. The glyph loop looks up every character of the string before its terminator
  exactly once, in order, and loads one glyph for each; no pen position ends it earlier.
  \<open>PrintfTTFW_loop\<close> is defined by recursion on the cells of the string, so it returns
  for every string.
\<close>

theorem glyph_loop_visits_every_character:
  "chars_looked_up (log (snd (static_PrintfTTFW ext w x y (Some f) (Some s) fontSize color noprint)))
     = chars_looked_up (log w) @ takeWhile (\<lambda>c. c \<noteq> 0) s
   \<and> length (glyphs_loaded
         (log (snd (static_PrintfTTFW ext w x y (Some f) (Some s) fontSize color noprint))))
     = length (glyphs_loaded (log w)) + length (takeWhile (\<lambda>c. c \<noteq> 0) s)"
proof -
  have "length (glyph_steps ext f e prev s) = length (takeWhile (\<lambda>c. c \<noteq> 0) s)" for e prev
    using st_char_glyph_steps [of ext f e prev s, THEN arg_cong, of length] by simp
  then show ?thesis
    by (simp add: static_PrintfTTFW_log chars_looked_up_append chars_looked_up_steps
          glyphs_loaded_append glyphs_loaded_steps st_char_glyph_steps set_pixel_sizes_log)
qed

theorem glyph_loop_visits_every_character_witness:
  "chars_looked_up (log (snd (static_PrintfTTFW toy_ext toy_world 100 200 (Some toy_font)
       (Some [65, 67, 0, 66]) 16 0x0A0B0CFF False))) = [65, 67]
   \<and> length (glyphs_loaded (log (snd (static_PrintfTTFW toy_ext toy_world 100 200 (Some toy_font)
       (Some [65, 67, 0, 66]) 16 0x0A0B0CFF False)))) = 2"
  using glyph_loop_visits_every_character [where ext = toy_ext and w = toy_world and f = toy_font
      and s = "[65, 67, 0, 66]" and fontSize = 16 and x = 100 and y = 200
      and color = "0x0A0B0CFF" and noprint = False]
  by (simp add: toy_world_def)

end
